theory Spec2Isabelle
  imports Complex_Main "HOL-Library.Sublist"
begin

section \<open>Strings\<close>

text \<open>
  A \<^verbatim>\<open>std::string\<close> is a list of bytes. \<^verbatim>\<open>s.find(pat)\<close> returns the least
  position at which \<^verbatim>\<open>pat\<close> occurs in \<^verbatim>\<open>s\<close>, or \<^verbatim>\<open>npos\<close> (here \<open>None\<close>).
\<close>

fun str_find :: "string \<Rightarrow> string \<Rightarrow> nat option" where
  "str_find [] pat = (if pat = [] then Some 0 else None)"
| "str_find (c # cs) pat =
     (if prefix pat (c # cs) then Some 0 else map_option Suc (str_find cs pat))"

definition str_contains :: "string \<Rightarrow> string \<Rightarrow> bool" where
  "str_contains s pat = (str_find s pat \<noteq> None)"

definition sq :: char where
  "sq = CHR 0x27"

definition dq :: char where
  "dq = CHR 0x22"

text \<open>\<^verbatim>\<open>std::to_string\<close> on an \<^verbatim>\<open>int\<close>: decimal digits, a minus sign when negative.\<close>

definition digit_char :: "nat \<Rightarrow> char" where
  "digit_char d = char_of (48 + d)"

function string_of_nat :: "nat \<Rightarrow> string" where
  "string_of_nat n =
     (if n < 10 then [digit_char n] else string_of_nat (n div 10) @ [digit_char (n mod 10)])"
  by pat_completeness auto
termination
  by (relation "measure id") auto

definition to_string :: "int \<Rightarrow> string" where
  "to_string i = (if i < 0 then CHR ''-'' # string_of_nat (nat (- i)) else string_of_nat (nat i))"

section \<open>JSON values\<close>

text \<open>
  The values of the JSON library the program is written against. An object is kept as
  a list of key/value pairs read with \<open>map_of\<close>. \<open>JInt\<close> is an integer number (stored
  in 64 bits by the library), \<open>JFloat\<close> a floating-point number.
\<close>

datatype json =
    JNull
  | JBool bool
  | JInt int
  | JFloat rat
  | JString string
  | JArray "json list"
  | JObject "(string \<times> json) list"

text \<open>
  \<^verbatim>\<open>j.contains(k) && j[k]\<close>: the member \<open>k\<close> of an object; \<^verbatim>\<open>contains\<close> is false on
  every value that is not an object.
\<close>

fun json_at :: "json \<Rightarrow> string \<Rightarrow> json option" where
  "json_at (JObject kvs) k = map_of kvs k"
| "json_at _ k = None"

text \<open>\<^verbatim>\<open>j.contains(k) && j[k].is_string()\<close>, then \<^verbatim>\<open>j[k].get<std::string>()\<close>.\<close>

definition json_string_at :: "json \<Rightarrow> string \<Rightarrow> string option" where
  "json_string_at j k = (case json_at j k of Some (JString s) \<Rightarrow> Some s | _ \<Rightarrow> None)"

text \<open>Conversion to the 32-bit \<^verbatim>\<open>int\<close> of the program: two's complement wrap-around.\<close>

definition to_int32 :: "int \<Rightarrow> int" where
  "to_int32 x = (x + 2147483648) mod 4294967296 - 2147483648"

text \<open>
  The conversion of a \<^verbatim>\<open>double\<close> to \<^verbatim>\<open>int\<close>: the value is truncated towards zero. For a
  result outside the range of \<^verbatim>\<open>int\<close> the language leaves the conversion undefined;
  the conversion instruction of x86-64 then gives the least \<^verbatim>\<open>int\<close>, and so does the
  model.
\<close>

definition double_to_int32 :: "rat \<Rightarrow> int" where
  "double_to_int32 q =
     (let t = (if 0 \<le> q then \<lfloor>q\<rfloor> else \<lceil>q\<rceil>)
      in if - 2147483648 \<le> t \<and> t < 2147483648 then t else - 2147483648)"

text \<open>
  \<^verbatim>\<open>v.is_number()\<close> followed by \<^verbatim>\<open>v.get<int>()\<close>: \<open>None\<close> when \<open>v\<close> is not a number.
  The library holds an integer literal as a 64-bit integer, signed from \<open>-2\<^sup>6\<^sup>3\<close> and
  unsigned up to \<open>2\<^sup>6\<^sup>4 - 1\<close>, and \<^verbatim>\<open>get<int>()\<close> narrows it to 32 bits without a range
  check; an integer literal outside that range is held as a \<^verbatim>\<open>double\<close>, like a
  floating-point number, and converted as one.
\<close>

fun json_number_as_int :: "json \<Rightarrow> int option" where
  "json_number_as_int (JInt n) =
     Some (if - 9223372036854775808 \<le> n \<and> n < 18446744073709551616 then to_int32 n
           else - 2147483648)"
| "json_number_as_int (JFloat q) = Some (double_to_int32 q)"
| "json_number_as_int _ = None"

text \<open>\<^verbatim>\<open>j.contains(k) && j[k].is_number()\<close>, then \<^verbatim>\<open>j[k].get<int>()\<close>.\<close>

definition json_int_at :: "json \<Rightarrow> string \<Rightarrow> int option" where
  "json_int_at j k = (case json_at j k of Some v \<Rightarrow> json_number_as_int v | None \<Rightarrow> None)"

section \<open>Configuration, tool results, the world\<close>

text \<open>
  Modelled from the spec: the configuration header is not part of the sources; the
  spec lists its boolean flags, and the tools read them through accessors of the same
  names.
\<close>

record config =
  is_calc_safety_ignored :: bool
  is_shell_safety_ignored :: bool
  is_auto_confirm_shell :: bool
  is_auto_confirm_file_ops :: bool

text \<open>
  Modelled from the spec: the tools header is not part of the sources. A ToolResult is
  the tagged outcome \<open>success(content)\<close> or \<open>error(message)\<close>, never both.
\<close>

datatype ToolResult = Success string | Error string

fun is_success :: "ToolResult \<Rightarrow> bool" where
  "is_success (Success c) = True"
| "is_success (Error m) = False"

datatype ConfirmType = SHELL_COMMAND | FILE_OPERATION | CALCULATION

text \<open>
  What a tool does to its surroundings is recorded as a trace of events, in the order
  they happen: a confirmation dialog (with its five arguments and the answer it
  returned), a call of \<^verbatim>\<open>popen\<close>, the writing of a file, the creation of directories.
\<close>

datatype event =
    Gate ConfirmType string string string string bool
  | Popen string
  | FileWrite string string
  | CreateDirs string

fun is_gate :: "event \<Rightarrow> bool" where
  "is_gate (Gate t a b c d r) = True"
| "is_gate _ = False"

fun is_denial :: "event \<Rightarrow> bool" where
  "is_denial (Gate t a b c d r) = (\<not> r)"
| "is_denial _ = False"

fun is_side_effect :: "event \<Rightarrow> bool" where
  "is_side_effect (Gate t a b c d r) = False"
| "is_side_effect _ = True"

text \<open>
  A subprocess as the read loops see it: one entry per iteration of the loop, the
  reading of the steady clock (nanoseconds since the start of the loop) and what
  \<^verbatim>\<open>fgets\<close> returned (\<open>None\<close> for a null pointer); end of file is reached after the
  last entry. \<open>exit_code\<close> is what \<^verbatim>\<open>WEXITSTATUS(pclose(pipe))\<close> gives.
\<close>

record proc =
  reads :: "(nat \<times> string option) list"
  exit_code :: int

text \<open>
  The world a tool runs in: the keys waiting on standard input, the trace, the regular
  files with their contents, the directories, and the operating system as oracles
  (what \<^verbatim>\<open>popen\<close> of a command line yields and what the command does to the files,
  which paths can be opened for reading and for writing, and for which paths
  \<^verbatim>\<open>fs::exists\<close> and \<^verbatim>\<open>fs::create_directories\<close> throw a \<^verbatim>\<open>filesystem_error\<close>, with the text
  of its \<^verbatim>\<open>what()\<close>; \<open>None\<close> where the call returns).
\<close>

record world =
  keys :: "char list"
  trace :: "event list"
  files :: "string \<rightharpoonup> string"
  dirs :: "string set"
  os_popen :: "string \<Rightarrow> (string \<rightharpoonup> string) \<Rightarrow> proc option \<times> (string \<rightharpoonup> string)"
  os_can_read :: "string \<Rightarrow> bool"
  os_can_write :: "string \<Rightarrow> bool"
  os_exists_error :: "string \<Rightarrow> string option"
  os_create_directories_error :: "string \<Rightarrow> string option"

definition log_event :: "event \<Rightarrow> world \<Rightarrow> world" where
  "log_event e w = w\<lparr>trace := trace w @ [e]\<rparr>"

section \<open>The confirmation gate (terminal.cpp)\<close>

text \<open>
  \<^verbatim>\<open>get_keypress\<close> reads one byte from standard input and returns 0 when the read
  fails or is at end of input.
\<close>

definition get_keypress :: "world \<Rightarrow> char \<times> world" where
  "get_keypress w =
     (case keys w of
        [] \<Rightarrow> (CHR 0x00, w)
      | c # cs \<Rightarrow> (c, w\<lparr>keys := cs\<rparr>))"

text \<open>
  \<^verbatim>\<open>confirm_dialog\<close> renders the dialog (rendering is not modelled), reads one key and
  confirms on carriage return or line feed.
\<close>

definition confirm_dialog ::
  "ConfirmType \<Rightarrow> string \<Rightarrow> string \<Rightarrow> string \<Rightarrow> string \<Rightarrow> world \<Rightarrow> bool \<times> world" where
  "confirm_dialog type title message details tip w =
     (let (c, w1) = get_keypress w;
          confirmed = (c = CHR 0x0D \<or> c = CHR 0x0A)
      in (confirmed, log_event (Gate type title message details tip confirmed) w1))"

text \<open>
  Every \<^verbatim>\<open>execute\<close> below wraps its body in a handler for \<^verbatim>\<open>std::exception\<close> that
  returns an error result. The JSON accessors are guarded by the type tests before
  them, so they do not throw. The calls of \<^verbatim>\<open>std::filesystem\<close> in the file tools can
  throw a \<^verbatim>\<open>filesystem_error\<close>: there the handler is a branch of the definition.
\<close>

text \<open>\<^verbatim>\<open>popen(cmd, "r")\<close>: the call is recorded, the operating system decides the rest.\<close>

definition popen :: "string \<Rightarrow> world \<Rightarrow> proc option \<times> world" where
  "popen cmd w =
     (let (p, fs) = os_popen w cmd (files w)
      in (p, (log_event (Popen cmd) w)\<lparr>files := fs\<rparr>))"

section \<open>The calculator tool (calculator_tool.cpp)\<close>

definition calc_blocked_patterns :: "string list" where
  "calc_blocked_patterns =
     [''system'', ''exec'', ''shell'', ''quit'', ''halt'', ''cd'', ''rm'', ''mv'']"

text \<open>
  The blocklist scans return \<^verbatim>\<open>false\<close> with the first listed pattern that occurs, in
  the out-parameter, or \<^verbatim>\<open>true\<close> with the out-parameter untouched (it is empty at
  every call).
\<close>

definition first_blocked :: "string list \<Rightarrow> string \<Rightarrow> bool \<times> string" where
  "first_blocked blocked s =
     (case find (\<lambda>b. str_contains s b) blocked of
        None \<Rightarrow> (True, [])
      | Some b \<Rightarrow> (False, b))"

definition is_expression_safe :: "string \<Rightarrow> bool \<times> string" where
  "is_expression_safe expression = first_blocked calc_blocked_patterns expression"

definition allowed_chars :: string where
  "allowed_chars =
     ''0123456789.+-*/^%() '' @ [CHR 0x09, CHR 0x0A] @
     ''abcdefghijklmnopqrstuvwxyzABCDEFGHIJKLMNOPQRSTUVWXYZ_''"

datatype calc_read_error = CalcTimedOut | CalcTooLarge

text \<open>The read loop of the calculator: 2000 ms of wall clock, 1000 characters of output.\<close>

fun calc_read_loop :: "(nat \<times> string option) list \<Rightarrow> string \<Rightarrow> calc_read_error + string" where
  "calc_read_loop [] result = Inr result"
| "calc_read_loop ((elapsed, chunk) # rest) result =
     (if elapsed div 1000000 > 2000 then Inl CalcTimedOut
      else (case chunk of
              None \<Rightarrow> calc_read_loop rest result
            | Some buffer \<Rightarrow>
                (let result' = result @ buffer
                 in if length result' > 1000 then Inl CalcTooLarge
                    else calc_read_loop rest result')))"

definition is_space :: "char \<Rightarrow> bool" where
  "is_space c = (c \<in> {CHR 0x20, CHR 0x09, CHR 0x0A, CHR 0x0B, CHR 0x0C, CHR 0x0D})"

definition trim :: "string \<Rightarrow> string" where
  "trim s = rev (dropWhile is_space (rev (dropWhile is_space s)))"

text \<open>The part of \<^verbatim>\<open>CalculatorTool::execute\<close> after the safety check.\<close>

definition calc_evaluate :: "string \<Rightarrow> world \<Rightarrow> ToolResult \<times> world" where
  "calc_evaluate sanitized_expression w =
     (let sanitized = (if length sanitized_expression > 500
                       then take 500 sanitized_expression else sanitized_expression);
          cmd = ''echo '' @ [sq] @ sanitized @ [sq] @ '' | BC_LINE_LENGTH=0 bc -l'';
          (pipe, w1) = popen cmd w
      in case pipe of
           None \<Rightarrow> (Error ''Failed to execute calculation'', w1)
         | Some p \<Rightarrow>
             (case calc_read_loop (reads p) [] of
                Inl CalcTimedOut \<Rightarrow>
                  (Error ''Calculation timed out (possible infinite loop or too complex)'', w1)
              | Inl CalcTooLarge \<Rightarrow> (Error ''Result too large'', w1)
              | Inr raw \<Rightarrow>
                  (let result = trim raw
                   in if result = [] then (Error ''Invalid expression or no result'', w1)
                      else if str_contains result ''syntax error'' \<or> str_contains result ''error''
                      then (Error (''Error: '' @ result), w1)
                      else (Success result, w1))))"

definition calculator_execute :: "config \<Rightarrow> json \<Rightarrow> world \<Rightarrow> ToolResult \<times> world" where
  "calculator_execute cfg args w =
     (case json_string_at args ''expression'' of
        Some expression \<Rightarrow>
          (let sanitized_expression = filter (\<lambda>c. c \<in> set allowed_chars) expression;
               (safe, pattern_found) =
                 (if \<not> is_calc_safety_ignored cfg
                  then is_expression_safe sanitized_expression else (True, []))
           in if \<not> safe then
                (let (confirmed, w1) =
                       confirm_dialog CALCULATION
                         ''The expression contains a potentially unsafe pattern:''
                         ([sq] @ pattern_found @ [sq] @ '' found in: '' @ expression)
                         ''This might be a false positive, but could be an attempt to execute code.''
                         ''Tip: Use --ignore-calc-safety to disable these warnings.'' w
                 in if \<not> confirmed
                    then (Error (''Calculation aborted due to security concerns with pattern: ''
                                 @ pattern_found), w1)
                    else calc_evaluate sanitized_expression w1)
              else calc_evaluate sanitized_expression w)
      | None \<Rightarrow> (Error ''Missing or invalid 'expression' parameter'', w))"

section \<open>The shell tool (shell_tool.cpp)\<close>

definition shell_blocked_commands :: "string list" where
  "shell_blocked_commands =
     [''rm'', ''mkfs'', ''dd'', ''>'', ''>>'', ''|'', ''&'', '';'', ''&&'', ''||'',
      ''sudo'', ''su'', ''chmod'', ''chown'', ''passwd'', ''mv'', ''curl'', ''wget'',
      ''ssh'', ''scp'', ''ftp'', ''telnet'', ''nc'', ''ncat'', ''sleep'', ''perl'',
      ''python'', ''python3'', ''ruby'', ''bash'', ''sh'', ''zsh'', ''csh'', ''ksh'']"

definition shell_is_command_safe :: "string \<Rightarrow> bool \<times> string" where
  "shell_is_command_safe command = first_blocked shell_blocked_commands command"

text \<open>
  The read loop of the shell tool, returning \<^verbatim>\<open>timed_out\<close> and \<^verbatim>\<open>result\<close>: it stops
  at the timeout and after truncating an output of more than 1000 characters.
\<close>

fun shell_read_loop :: "int \<Rightarrow> (nat \<times> string option) list \<Rightarrow> string \<Rightarrow> bool \<times> string" where
  "shell_read_loop timeout_seconds [] result = (False, result)"
| "shell_read_loop timeout_seconds ((elapsed, chunk) # rest) result =
     (if int elapsed > timeout_seconds * 1000000000 then (True, result)
      else (case chunk of
              None \<Rightarrow> shell_read_loop timeout_seconds rest result
            | Some buffer \<Rightarrow>
                (let result' = result @ buffer
                 in if length result' > 1000
                    then (False, take 1000 result' @ [CHR 0x0A] @ ''... (output truncated)'')
                    else shell_read_loop timeout_seconds rest result')))"

text \<open>\<^verbatim>\<open>ShellTool::execute\<close> from the redirection suffix on.\<close>

definition shell_run :: "string \<Rightarrow> int \<Rightarrow> world \<Rightarrow> ToolResult \<times> world" where
  "shell_run command timeout_seconds w =
     (let (pipe, w1) = popen (command @ '' 2>&1'') w
      in case pipe of
           None \<Rightarrow> (Error ''Failed to execute command'', w1)
         | Some p \<Rightarrow>
             (let (timed_out, result) = shell_read_loop timeout_seconds (reads p) []
              in if timed_out
                 then (Error (''Command execution timed out after '' @ to_string timeout_seconds
                              @ '' seconds''), w1)
                 else (Success (if result = []
                                then ''Command executed successfully (no output)''
                                else result), w1)))"

text \<open>The confirmation every command needs unless auto-confirm is set, then the run.\<close>

definition shell_confirm_and_run ::
  "config \<Rightarrow> string \<Rightarrow> int \<Rightarrow> world \<Rightarrow> ToolResult \<times> world" where
  "shell_confirm_and_run cfg command timeout_seconds w =
     (if \<not> is_auto_confirm_shell cfg then
        (let (confirmed, w1) =
               confirm_dialog SHELL_COMMAND
                 ''The AI is requesting to execute the following command:''
                 command
                 ''This could potentially modify your system.''
                 [] w
         in if \<not> confirmed then (Error ''Command execution denied by user'', w1)
            else shell_run command timeout_seconds w1)
      else shell_run command timeout_seconds w)"

definition shell_execute :: "config \<Rightarrow> json \<Rightarrow> world \<Rightarrow> ToolResult \<times> world" where
  "shell_execute cfg args w =
     (case json_string_at args ''command'' of
        None \<Rightarrow> (Error ''Missing or invalid 'command' parameter'', w)
      | Some command \<Rightarrow>
          (let timeout_seconds =
                 (case json_int_at args ''timeout'' of
                    None \<Rightarrow> 5
                  | Some t \<Rightarrow> if t > 30 then 30 else if t < 1 then 1 else t);
               (safe, operation_found) =
                 (if \<not> is_shell_safety_ignored cfg
                  then shell_is_command_safe command else (True, []))
           in if \<not> safe then
                (let (confirmed, w1) =
                       confirm_dialog SHELL_COMMAND
                         ''The command contains a potentially dangerous operation:''
                         ([sq] @ operation_found @ [sq] @ '' found in: '' @ command)
                         ''This could potentially harm your system or expose sensitive data.''
                         ''Tip: Use --ignore-shell-safety to disable these warnings.'' w
                 in if \<not> confirmed
                    then (Error (''Command execution aborted due to security concerns with operation: ''
                                 @ operation_found), w1)
                    else shell_confirm_and_run cfg command timeout_seconds w1)
              else shell_confirm_and_run cfg command timeout_seconds w))"

section \<open>The bash tool (bash_tool.cpp)\<close>

definition bash_blocked_commands :: "string list" where
  "bash_blocked_commands =
     [''rm -rf'', ''mkfs'', ''dd if='', ''> /dev'', ''echo > /dev'', ''>/dev'',
      ''sudo rm'', ''sudo mv'', ''sudo cp'', ''reboot'', ''shutdown'',
      ''passwd'', ''chmod 777'', ''chmod -R 777'', '':(){ :|:& };:'', ''fork bomb'']"

definition bash_is_command_safe :: "string \<Rightarrow> bool \<times> string" where
  "bash_is_command_safe command = first_blocked bash_blocked_commands command"

text \<open>
  The read loop of \<^verbatim>\<open>BashTool::execute_command\<close>: \<open>Inl ()\<close> when the timeout is seen
  (the function returns at once), else the output, cut at 1000000 characters.
\<close>

fun bash_read_loop :: "int \<Rightarrow> (nat \<times> string option) list \<Rightarrow> string \<Rightarrow> unit + string" where
  "bash_read_loop timeout_seconds [] result = Inr result"
| "bash_read_loop timeout_seconds ((elapsed, chunk) # rest) result =
     (if int elapsed > timeout_seconds * 1000000000 then Inl ()
      else (case chunk of
              None \<Rightarrow> bash_read_loop timeout_seconds rest result
            | Some buffer \<Rightarrow>
                (let result' = result @ buffer
                 in if length result' > 1000000
                    then Inr (take 1000000 result' @ [CHR 0x0A]
                              @ ''... (output truncated due to size limit)'')
                    else bash_read_loop timeout_seconds rest result')))"

text \<open>\<^verbatim>\<open>BashTool::execute_command\<close>, returning the text and \<^verbatim>\<open>timed_out\<close>.\<close>

definition execute_command :: "string \<Rightarrow> int \<Rightarrow> world \<Rightarrow> (string \<times> bool) \<times> world" where
  "execute_command command timeout_seconds w =
     (let (pipe, w1) = popen command w
      in case pipe of
           None \<Rightarrow> ((''Error: Failed to execute command'', False), w1)
         | Some p \<Rightarrow>
             (case bash_read_loop timeout_seconds (reads p) [] of
                Inl u \<Rightarrow>
                  ((''Error: Command execution timed out after '' @ to_string timeout_seconds
                    @ '' seconds.'', True), w1)
              | Inr result \<Rightarrow>
                  ((if exit_code p = 0
                    then (if result = [] then ''Command executed successfully (no output)''
                          else result)
                    else ''Command failed with exit code: '' @ to_string (exit_code p)
                         @ [CHR 0x0A]
                         @ (if result \<noteq> [] then ''Output:'' @ [CHR 0x0A] @ result else []),
                    False), w1)))"

definition bash_run :: "string \<Rightarrow> int \<Rightarrow> world \<Rightarrow> ToolResult \<times> world" where
  "bash_run command timeout_seconds w =
     (let ((result, timed_out), w1) = execute_command (command @ '' 2>&1'') timeout_seconds w
      in if timed_out
         then (Error (''Command execution timed out after '' @ to_string timeout_seconds
                      @ '' seconds''), w1)
         else (Success result, w1))"

definition bash_confirm_and_run ::
  "config \<Rightarrow> string \<Rightarrow> int \<Rightarrow> world \<Rightarrow> ToolResult \<times> world" where
  "bash_confirm_and_run cfg command timeout_seconds w =
     (if \<not> is_auto_confirm_shell cfg then
        (let (confirmed, w1) =
               confirm_dialog SHELL_COMMAND
                 ''The AI is requesting to execute the following bash command:''
                 command
                 ''This command will be executed with your user permissions.''
                 ''Use with caution. Some commands may modify your system.'' w
         in if \<not> confirmed then (Error ''Command execution denied by user'', w1)
            else bash_run command timeout_seconds w1)
      else bash_run command timeout_seconds w)"

text \<open>
  The command line the bash tool checks and runs: the \<^verbatim>\<open>command\<close> argument, behind a
  change of directory when a \<^verbatim>\<open>working_directory\<close> is given.
\<close>

definition bash_command_line :: "json \<Rightarrow> string \<Rightarrow> string" where
  "bash_command_line args command =
     (case json_string_at args ''working_directory'' of
        None \<Rightarrow> command
      | Some working_dir \<Rightarrow> ''cd '' @ [dq] @ working_dir @ [dq] @ '' && '' @ command)"

definition bash_execute :: "config \<Rightarrow> json \<Rightarrow> world \<Rightarrow> ToolResult \<times> world" where
  "bash_execute cfg args w =
     (case json_string_at args ''command'' of
        None \<Rightarrow> (Error ''Missing or invalid 'command' parameter'', w)
      | Some command0 \<Rightarrow>
          (let timeout_seconds =
                 (case json_int_at args ''timeout'' of
                    None \<Rightarrow> 10
                  | Some t \<Rightarrow> if t > 60 then 60 else if t < 1 then 1 else t);
               command = bash_command_line args command0;
               (safe, operation_found) =
                 (if \<not> is_shell_safety_ignored cfg
                  then bash_is_command_safe command else (True, []))
           in if \<not> safe then
                (let (confirmed, w1) =
                       confirm_dialog SHELL_COMMAND
                         ''The bash command contains a potentially dangerous operation:''
                         ([sq] @ operation_found @ [sq] @ '' found in: '' @ command)
                         ''This operation could potentially harm your system or delete data.''
                         ''Tip: Use --ignore-shell-safety to disable these warnings.'' w
                 in if \<not> confirmed
                    then (Error (''Command execution aborted due to security concerns with operation: ''
                                 @ operation_found), w1)
                    else bash_confirm_and_run cfg command timeout_seconds w1)
              else bash_confirm_and_run cfg command timeout_seconds w))"

section \<open>The file tools (file_tools.cpp)\<close>

definition fs_exists :: "world \<Rightarrow> string \<Rightarrow> bool" where
  "fs_exists w path = (path \<in> dom (files w) \<or> path \<in> dirs w)"

text \<open>Reading an opened stream to its end; a path that is no regular file reads empty.\<close>

definition read_file :: "world \<Rightarrow> string \<Rightarrow> string" where
  "read_file w path = (case files w path of Some c \<Rightarrow> c | None \<Rightarrow> [])"

text \<open>Opening a file for writing truncates it; the content follows.\<close>

definition write_file :: "string \<Rightarrow> string \<Rightarrow> world \<Rightarrow> world" where
  "write_file path content w =
     (log_event (FileWrite path content) w)\<lparr>files := (files w)(path \<mapsto> content)\<rparr>"

text \<open>
  \<^verbatim>\<open>fs::path(p).parent_path()\<close>: the path up to its last separator, without trailing
  separators; the root is its own parent, a bare file name has none.
\<close>

definition parent_path :: "string \<Rightarrow> string" where
  "parent_path p =
     (if CHR ''/'' \<notin> set p then []
      else (let d = rev (dropWhile (\<lambda>c. c = CHR ''/'')
                          (dropWhile (\<lambda>c. c \<noteq> CHR ''/'') (rev p)))
            in if d = [] then ''/'' else d))"

text \<open>
  The parent directory of \<^verbatim>\<open>FileWriteTool::execute\<close>: it is created when the path names
  one that does not exist. \<open>Inl\<close> holds the text of the \<^verbatim>\<open>filesystem_error\<close> thrown by
  \<^verbatim>\<open>fs::exists\<close> or by \<^verbatim>\<open>fs::create_directories\<close>; a call that throws creates nothing.
\<close>

definition create_parent :: "string \<Rightarrow> world \<Rightarrow> string + world" where
  "create_parent file_path w =
     (let dir_path = parent_path file_path
      in if dir_path = [] then Inr w
         else (case os_exists_error w dir_path of
                 Some what \<Rightarrow> Inl what
               | None \<Rightarrow>
                   if fs_exists w dir_path then Inr w
                   else (case os_create_directories_error w dir_path of
                           Some what \<Rightarrow> Inl what
                         | None \<Rightarrow>
                             Inr ((log_event (CreateDirs dir_path) w)
                                    \<lparr>dirs := insert dir_path (dirs w)\<rparr>))))"

text \<open>\<^verbatim>\<open>FileWriteTool::execute\<close> after the confirmation.\<close>

definition file_write_perform :: "string \<Rightarrow> string \<Rightarrow> world \<Rightarrow> ToolResult \<times> world" where
  "file_write_perform file_path content w =
     (case create_parent file_path w of
        Inl what \<Rightarrow> (Error (''Error writing file: '' @ what), w)
      | Inr w1 \<Rightarrow>
          if \<not> os_can_write w1 file_path
          then (Error (''Could not open file for writing: '' @ file_path), w1)
          else (Success (''File successfully written: '' @ file_path @ '' (''
                         @ string_of_nat (length content) @ '' bytes)''),
                write_file file_path content w1))"

definition file_write_execute :: "config \<Rightarrow> json \<Rightarrow> world \<Rightarrow> ToolResult \<times> world" where
  "file_write_execute cfg args w =
     (case json_string_at args ''path'' of
        None \<Rightarrow> (Error ''Missing or invalid 'path' parameter'', w)
      | Some file_path \<Rightarrow>
          (case json_string_at args ''content'' of
             None \<Rightarrow> (Error ''Missing or invalid 'content' parameter'', w)
           | Some content \<Rightarrow>
               if str_contains file_path ''..''
               then (Error ''Path contains forbidden '..' sequence'', w)
               else if \<not> is_auto_confirm_file_ops cfg then
                 (let content_preview =
                        (if length content > 200 then take 200 content @ ''... (truncated)''
                         else content);
                      (confirmed, w1) =
                        confirm_dialog FILE_OPERATION
                          ''The AI is requesting to write to the file:''
                          file_path
                          (''Content (preview):'' @ [CHR 0x0A] @ content_preview)
                          [] w
                  in if \<not> confirmed then (Error ''File write operation denied by user'', w1)
                     else file_write_perform file_path content w1)
               else file_write_perform file_path content w))"

text \<open>
  The edit operations, each with the arguments it reads: a replacement text, the old
  and the new text, the text to append, the text to prepend, a line number and the text
  to insert.
\<close>

datatype EditOp =
    REPLACE_ALL string
  | REPLACE_TEXT string string
  | APPEND string
  | PREPEND string
  | INSERT_LINE int string
  | UNKNOWN

text \<open>The chain of tests that selects the operation; the first that applies wins.\<close>

definition select_operation :: "json \<Rightarrow> EditOp" where
  "select_operation args =
     (case json_string_at args ''replace_all'' of
        Some t \<Rightarrow> REPLACE_ALL t
      | None \<Rightarrow>
     (case (json_string_at args ''old_text'', json_string_at args ''new_text'') of
        (Some old_text, Some new_text) \<Rightarrow> REPLACE_TEXT old_text new_text
      | _ \<Rightarrow>
     (case json_string_at args ''append'' of
        Some t \<Rightarrow> APPEND t
      | None \<Rightarrow>
     (case json_string_at args ''prepend'' of
        Some t \<Rightarrow> PREPEND t
      | None \<Rightarrow>
     (case (json_int_at args ''insert_at_line'', json_string_at args ''text'') of
        (Some line_number, Some t) \<Rightarrow> INSERT_LINE line_number t
      | _ \<Rightarrow> UNKNOWN)))))"

definition format_preview :: "string \<Rightarrow> string" where
  "format_preview t = (if length t > 100 then take 100 t @ ''... (truncated)'' else t)"

fun edit_details :: "EditOp \<Rightarrow> string" where
  "edit_details (REPLACE_ALL t) =
     ''Operation: Replace entire file'' @ [CHR 0x0A] @ ''New Content: '' @ format_preview t"
| "edit_details (REPLACE_TEXT old_text new_text) =
     ''Operation: Replace text in file'' @ [CHR 0x0A] @ ''Old Text: '' @ format_preview old_text
       @ [CHR 0x0A] @ ''New Text: '' @ format_preview new_text"
| "edit_details (APPEND t) =
     ''Operation: Append to file'' @ [CHR 0x0A] @ ''New Content: '' @ format_preview t"
| "edit_details (PREPEND t) =
     ''Operation: Prepend to file'' @ [CHR 0x0A] @ ''New Content: '' @ format_preview t"
| "edit_details (INSERT_LINE line_number t) =
     ''Operation: Insert at line '' @ to_string line_number @ [CHR 0x0A] @ ''New Content: ''
       @ format_preview t"
| "edit_details UNKNOWN = ''Operation: ''"

text \<open>
  \<^verbatim>\<open>while (std::getline(ss, line)) lines.push_back(line)\<close>: the text is cut at every
  newline; what follows the last newline is a line only when it is not empty.
\<close>

fun getlines_from :: "string \<Rightarrow> string \<Rightarrow> string list" where
  "getlines_from line [] = (if line = [] then [] else [line])"
| "getlines_from line (c # cs) =
     (if c = CHR 0x0A then line # getlines_from [] cs else getlines_from (line @ [c]) cs)"

definition getlines :: "string \<Rightarrow> string list" where
  "getlines content = getlines_from [] content"

text \<open>The loop that rebuilds the content: a newline after every line but the last.\<close>

fun join_lines :: "string list \<Rightarrow> string" where
  "join_lines [] = []"
| "join_lines [l] = l"
| "join_lines (l # ls) = l @ [CHR 0x0A] @ join_lines ls"

text \<open>
  The bounds check of the insertion and the index it leaves: \<^verbatim>\<open>(int)lines.size()\<close>
  narrows the size to 32 bits.
\<close>

definition clamp_line_number :: "int \<Rightarrow> nat \<Rightarrow> int" where
  "clamp_line_number line_number n =
     (if line_number < 0 then 0
      else if line_number > to_int32 (int n) then to_int32 (int n)
      else line_number)"

datatype edit_outcome = Edited string | EditFailed string | EditUndefined

text \<open>
  The \<^verbatim>\<open>switch\<close> over the operation. \<^verbatim>\<open>lines.insert(lines.begin() + n, text)\<close> is
  undefined in C++ for an \<open>n\<close> outside \<open>[0, lines.size()]\<close>, which the bounds check
  leaves only when the narrowed size is not the size.
\<close>

fun perform_edit :: "EditOp \<Rightarrow> string \<Rightarrow> edit_outcome" where
  "perform_edit (REPLACE_ALL t) content = Edited t"
| "perform_edit (REPLACE_TEXT old_text new_text) content =
     (case str_find content old_text of
        None \<Rightarrow> EditFailed ''Could not find the text to replace in the file''
      | Some pos \<Rightarrow> Edited (take pos content @ new_text @ drop (pos + length old_text) content))"
| "perform_edit (APPEND t) content = Edited (content @ t)"
| "perform_edit (PREPEND t) content = Edited (t @ content)"
| "perform_edit (INSERT_LINE line_number0 t) content =
     (let lines = getlines content;
          line_number = clamp_line_number line_number0 (length lines)
      in if 0 \<le> line_number \<and> line_number \<le> int (length lines)
         then Edited (join_lines (take (nat line_number) lines @ [t]
                                  @ drop (nat line_number) lines))
         else EditUndefined)"
| "perform_edit UNKNOWN content = EditFailed ''Unknown edit operation''"

text \<open>
  \<^verbatim>\<open>FileEditTool::execute\<close> after the confirmation: the edit, then the write. \<open>None\<close>
  stands for undefined behaviour.
\<close>

definition file_edit_apply ::
  "EditOp \<Rightarrow> string \<Rightarrow> string \<Rightarrow> world \<Rightarrow> (ToolResult \<times> world) option" where
  "file_edit_apply operation file_path content w =
     (case perform_edit operation content of
        EditFailed m \<Rightarrow> Some (Error m, w)
      | EditUndefined \<Rightarrow> None
      | Edited content' \<Rightarrow>
          if \<not> os_can_write w file_path
          then Some (Error (''Could not open file for writing: '' @ file_path), w)
          else Some (Success (''File successfully edited: '' @ file_path),
                     write_file file_path content' w))"

definition no_valid_operation :: string where
  "no_valid_operation =
     ''No valid edit operation specified. Use 'replace_all', 'old_text'+'new_text', ''
     @ [sq] @ ''append', 'prepend', or 'insert_at_line'+'text'' @ [sq]"

definition file_edit_execute ::
  "config \<Rightarrow> json \<Rightarrow> world \<Rightarrow> (ToolResult \<times> world) option" where
  "file_edit_execute cfg args w =
     (case json_string_at args ''path'' of
        None \<Rightarrow> Some (Error ''Missing or invalid 'path' parameter'', w)
      | Some file_path \<Rightarrow>
          if str_contains file_path ''..''
          then Some (Error ''Path contains forbidden '..' sequence'', w)
          else
            (case os_exists_error w file_path of
               Some what \<Rightarrow> Some (Error (''Error editing file: '' @ what), w)
             | None \<Rightarrow>
                 if \<not> fs_exists w file_path
                 then Some (Error (''File does not exist: '' @ file_path), w)
                 else if \<not> os_can_read w file_path
                 then Some (Error (''Could not open file for reading: '' @ file_path), w)
                 else
                   (let content = read_file w file_path;
                        operation = select_operation args
                    in if operation = UNKNOWN then Some (Error no_valid_operation, w)
                       else if \<not> is_auto_confirm_file_ops cfg then
                         (let (confirmed, w1) =
                                confirm_dialog FILE_OPERATION
                                  ''The AI is requesting to edit the file:''
                                  file_path
                                  (edit_details operation)
                                  [] w
                          in if \<not> confirmed
                             then Some (Error ''File edit operation denied by user'', w1)
                             else file_edit_apply operation file_path content w1)
                       else file_edit_apply operation file_path content w)))"

section \<open>The protocol client (ollama_client.hpp, ollama_client.cpp)\<close>

record ToolCall =
  tc_id :: string
  tc_name :: string
  tc_arguments :: json

record ChatMessage =
  role :: string
  content :: string
  name :: string
  tool_calls :: "ToolCall list"

text \<open>The two constructors of a message and \<^verbatim>\<open>make_tool_response\<close>.\<close>

definition chat_message :: "string \<Rightarrow> string \<Rightarrow> ChatMessage" where
  "chat_message r c = \<lparr>role = r, content = c, name = [], tool_calls = []\<rparr>"

definition make_tool_response :: "string \<Rightarrow> string \<Rightarrow> ChatMessage" where
  "make_tool_response c n = \<lparr>role = ''tool'', content = c, name = n, tool_calls = []\<rparr>"

record Tool =
  tool_type :: string
  function_name :: string
  function_description :: string
  function_parameters :: json

text \<open>
  The exceptions of the JSON library that the handlers of the client, which name
  \<^verbatim>\<open>json::parse_error\<close>, do not catch: \<^verbatim>\<open>json::type_error\<close>, thrown by
  \<^verbatim>\<open>get<std::string>()\<close> on a value that is not a string and by \<^verbatim>\<open>dump()\<close> on a string
  that is not UTF-8, and \<^verbatim>\<open>json::out_of_range\<close>, thrown by \<^verbatim>\<open>json::parse\<close> on a number
  literal too large for a double, such as \<^verbatim>\<open>1e999\<close>.
\<close>

datatype json_exception = type_error | out_of_range

fun json_get_string :: "json \<Rightarrow> json_exception + string" where
  "json_get_string (JString s) = Inr s"
| "json_get_string _ = Inl type_error"

text \<open>
  \<^verbatim>\<open>json::parse\<close> is a parameter of the model: a function from text to the value
  parsed, to \<open>ParseError\<close> where the library throws \<^verbatim>\<open>json::parse_error\<close>, or to
  \<open>OutOfRange\<close> where it throws \<^verbatim>\<open>json::out_of_range\<close>.
\<close>

datatype parse_outcome = Parsed json | ParseError | OutOfRange

type_synonym parser = "string \<Rightarrow> parse_outcome"

text \<open>
  One line of the stream, in the body of the loop of \<^verbatim>\<open>stream_callback\<close>: the
  fragments handed to the callback (none or one), or the exception.
\<close>

definition line_fragments :: "parser \<Rightarrow> string \<Rightarrow> json_exception + string list" where
  "line_fragments parse line =
     (if line = [] then Inr []
      else (case parse line of
              ParseError \<Rightarrow> Inr []
            | OutOfRange \<Rightarrow> Inl out_of_range
            | Parsed j \<Rightarrow>
                (case json_at j ''message'' of
                   None \<Rightarrow> Inr []
                 | Some m \<Rightarrow>
                     (case json_at m ''content'' of
                        None \<Rightarrow> Inr []
                      | Some c \<Rightarrow>
                          (case json_get_string c of
                             Inl e \<Rightarrow> Inl e
                           | Inr resp \<Rightarrow> Inr [resp])))))"

text \<open>
  The loop over the complete lines of the buffer. The result is the list of fragments
  handed to the callback, in order, and the buffer the call leaves (what follows the
  last newline), or the exception that left the loop.
\<close>

function process_lines :: "parser \<Rightarrow> string \<Rightarrow> string list \<times> (json_exception + string)" where
  "process_lines parse buf =
     (if CHR 0x0A \<notin> set buf then ([], Inr buf)
      else (case line_fragments parse (takeWhile (\<lambda>c. c \<noteq> CHR 0x0A) buf) of
              Inl e \<Rightarrow> ([], Inl e)
            | Inr fs \<Rightarrow>
                (case process_lines parse (tl (dropWhile (\<lambda>c. c \<noteq> CHR 0x0A) buf)) of
                   (later, rest) \<Rightarrow> (fs @ later, rest))))"
  by pat_completeness auto
termination
proof (relation "measure (\<lambda>(parse, buf). length buf)")
  show "wf (measure (\<lambda>(parse, buf). length buf))" by simp
next
  fix parse :: parser and buf :: string and fs :: "string list"
  assume "\<not> CHR 0x0A \<notin> set buf"
  then have "dropWhile (\<lambda>c. c \<noteq> CHR 0x0A) buf \<noteq> []" by (simp add: dropWhile_eq_Nil_conv)
  then have "length (tl (dropWhile (\<lambda>c. c \<noteq> CHR 0x0A) buf))
               < length (dropWhile (\<lambda>c. c \<noteq> CHR 0x0A) buf)"
    by simp
  also have "\<dots> \<le> length buf" by (rule length_dropWhile_le)
  finally show "((parse, tl (dropWhile (\<lambda>c. c \<noteq> CHR 0x0A) buf)), (parse, buf))
                  \<in> measure (\<lambda>(parse, buf). length buf)"
    by simp
qed

declare process_lines.simps [simp del]

text \<open>\<^verbatim>\<open>stream_callback\<close>: the chunk is appended to the buffer, the lines are processed.\<close>

definition stream_callback ::
  "parser \<Rightarrow> string \<Rightarrow> string \<Rightarrow> string list \<times> (json_exception + string)" where
  "stream_callback parse response_buffer chunk = process_lines parse (response_buffer @ chunk)"

text \<open>
  The transfer calls \<^verbatim>\<open>stream_callback\<close> once per chunk read from the network, with
  the buffer the call before left; an exception ends the transfer.
\<close>

fun feed_chunks ::
  "parser \<Rightarrow> string \<Rightarrow> string list \<Rightarrow> string list \<times> (json_exception + string)" where
  "feed_chunks parse response_buffer [] = ([], Inr response_buffer)"
| "feed_chunks parse response_buffer (chunk # chunks) =
     (case stream_callback parse response_buffer chunk of
        (fs, Inl e) \<Rightarrow> (fs, Inl e)
      | (fs, Inr buf) \<Rightarrow>
          (case feed_chunks parse buf chunks of (later, rest) \<Rightarrow> (fs @ later, rest)))"

text \<open>
  The network, as oracles: whether \<^verbatim>\<open>curl_easy_init\<close> gives a handle, what \<^verbatim>\<open>dump()\<close>
  makes of the payload (\<open>None\<close> where it throws), and what a transfer to a URL with a
  body returns: the result code (0 is \<^verbatim>\<open>CURLE_OK\<close>) and the chunks of the response body
  in the order they are read.
\<close>

record net =
  curl_easy_init_ok :: bool
  json_dump :: "json \<Rightarrow> string option"
  curl_easy_perform :: "string \<Rightarrow> string \<Rightarrow> nat \<times> string list"

definition message_json :: "ChatMessage \<Rightarrow> json" where
  "message_json msg =
     JObject ([(''role'', JString (role msg)), (''content'', JString (content msg))]
              @ (if role msg = ''tool'' \<and> name msg \<noteq> [] then [(''name'', JString (name msg))]
                 else []))"

definition tool_json :: "Tool \<Rightarrow> json" where
  "tool_json tool =
     JObject [(''type'', JString (tool_type tool)),
              (''function'', JObject [(''name'', JString (function_name tool)),
                                     (''description'', JString (function_description tool)),
                                     (''parameters'', function_parameters tool)])]"

definition chat_payload :: "string \<Rightarrow> ChatMessage list \<Rightarrow> bool \<Rightarrow> Tool list \<Rightarrow> json" where
  "chat_payload model messages stream tools =
     JObject ([(''model'', JString model),
               (''messages'', JArray (map message_json messages)),
               (''stream'', JBool stream)]
              @ (if tools \<noteq> [] then [(''tools'', JArray (map tool_json tools))] else []))"

text \<open>
  \<^verbatim>\<open>chat_stream\<close>: the fragments handed to the caller's callback, and the exception
  that left the function, if one did.
\<close>

definition chat_stream ::
  "net \<Rightarrow> parser \<Rightarrow> string \<Rightarrow> string \<Rightarrow> ChatMessage list \<Rightarrow> Tool list
     \<Rightarrow> string list \<times> json_exception option" where
  "chat_stream nw parse host model messages tools =
     (if \<not> curl_easy_init_ok nw then ([], None)
      else (case json_dump nw (chat_payload model messages True tools) of
              None \<Rightarrow> ([], Some type_error)
            | Some payload_str \<Rightarrow>
                (let (res, chunks) = curl_easy_perform nw (host @ ''/api/chat'') payload_str
                 in case feed_chunks parse [] chunks of
                      (fs, Inl e) \<Rightarrow> (fs, Some e)
                    | (fs, Inr buf) \<Rightarrow> (fs, None))))"

text \<open>One entry of \<^verbatim>\<open>tool_calls\<close>, in the body of the loop of \<^verbatim>\<open>parse_tool_calls\<close>.\<close>

text \<open>
  The member \<^verbatim>\<open>arguments\<close> of a \<^verbatim>\<open>function\<close> object: a string is parsed, and kept as
  text where the parser throws \<^verbatim>\<open>json::parse_error\<close>; any other exception of the parser
  leaves the function.
\<close>

fun parse_arguments :: "parser \<Rightarrow> json option \<Rightarrow> json_exception + json" where
  "parse_arguments parse None = Inr JNull"
| "parse_arguments parse (Some (JString s)) =
     (case parse s of
        Parsed v \<Rightarrow> Inr v
      | ParseError \<Rightarrow> Inr (JString s)
      | OutOfRange \<Rightarrow> Inl out_of_range)"
| "parse_arguments parse (Some a) = Inr a"

definition parse_tool_call :: "parser \<Rightarrow> json \<Rightarrow> json_exception + ToolCall" where
  "parse_tool_call parse tool_call_json =
     (case (case json_at tool_call_json ''id'' of
              None \<Rightarrow> Inr []
            | Some v \<Rightarrow> json_get_string v) of
        Inl e \<Rightarrow> Inl e
      | Inr i \<Rightarrow>
          (case json_at tool_call_json ''function'' of
             None \<Rightarrow> Inr \<lparr>tc_id = i, tc_name = [], tc_arguments = JNull\<rparr>
           | Some function \<Rightarrow>
               (case (case json_at function ''name'' of
                        None \<Rightarrow> Inr []
                      | Some v \<Rightarrow> json_get_string v) of
                  Inl e \<Rightarrow> Inl e
                | Inr n \<Rightarrow>
                    (case parse_arguments parse (json_at function ''arguments'') of
                       Inl e \<Rightarrow> Inl e
                     | Inr a \<Rightarrow> Inr \<lparr>tc_id = i, tc_name = n, tc_arguments = a\<rparr>))))"

fun parse_tool_call_list :: "parser \<Rightarrow> json list \<Rightarrow> json_exception + ToolCall list" where
  "parse_tool_call_list parse [] = Inr []"
| "parse_tool_call_list parse (tool_call_json # rest) =
     (case parse_tool_call parse tool_call_json of
        Inl e \<Rightarrow> Inl e
      | Inr tool_call \<Rightarrow>
          (case parse_tool_call_list parse rest of
             Inl e \<Rightarrow> Inl e
           | Inr calls \<Rightarrow> Inr (tool_call # calls)))"

definition parse_tool_calls :: "parser \<Rightarrow> json \<Rightarrow> json_exception + ToolCall list" where
  "parse_tool_calls parse message =
     (case json_at message ''tool_calls'' of
        Some (JArray entries) \<Rightarrow> parse_tool_call_list parse entries
      | _ \<Rightarrow> Inr [])"

text \<open>
  \<^verbatim>\<open>OllamaClient::Impl::chat\<close>; \<open>streaming\<close> says that a stream callback was passed.
  The result is the message returned or the exception that left the function.
\<close>

definition chat ::
  "net \<Rightarrow> parser \<Rightarrow> string \<Rightarrow> string \<Rightarrow> ChatMessage list \<Rightarrow> Tool list \<Rightarrow> bool
     \<Rightarrow> json_exception + ChatMessage" where
  "chat nw parse host model messages tools streaming =
     (if streaming then
        (case chat_stream nw parse host model messages tools of
           (fs, Some e) \<Rightarrow> Inl e
         | (fs, None) \<Rightarrow> Inr (chat_message ''assistant'' (concat fs)))
      else if \<not> curl_easy_init_ok nw then Inr (chat_message ''assistant'' [])
      else (case json_dump nw (chat_payload model messages False tools) of
              None \<Rightarrow> Inl type_error
            | Some payload_str \<Rightarrow>
                (let (res, chunks) = curl_easy_perform nw (host @ ''/api/chat'') payload_str;
                     response = concat chunks
                 in if res = 0 then
                      (case parse response of
                         ParseError \<Rightarrow> Inr (chat_message ''assistant'' [])
                       | OutOfRange \<Rightarrow> Inl out_of_range
                       | Parsed j \<Rightarrow>
                           (case json_at j ''message'' of
                              None \<Rightarrow> Inr (chat_message ''assistant'' [])
                            | Some m \<Rightarrow>
                                (case (case json_at m ''content'' of
                                         None \<Rightarrow> Inr []
                                       | Some c \<Rightarrow> json_get_string c) of
                                   Inl e \<Rightarrow> Inl e
                                 | Inr text \<Rightarrow>
                                     (case parse_tool_calls parse m of
                                        Inl e \<Rightarrow> Inl e
                                      | Inr tcs \<Rightarrow>
                                          Inr ((chat_message ''assistant'' text)
                                                 \<lparr>tool_calls := tcs\<rparr>)))))
                    else Inr (chat_message ''assistant'' []))))"

section \<open>The tool registry and the tool round (tools_base.cpp, main.cpp)\<close>

text \<open>
  A tool is its \<^verbatim>\<open>execute\<close> method: from the arguments and the world to a result and
  the world it leaves. The registry is the map from names to tools.
\<close>

type_synonym 'w tool = "json \<Rightarrow> 'w \<Rightarrow> ToolResult \<times> 'w"

type_synonym 'w ToolManager = "string \<rightharpoonup> 'w tool"

definition has_tool :: "'w ToolManager \<Rightarrow> string \<Rightarrow> bool" where
  "has_tool tools n = (tools n \<noteq> None)"

definition execute_tool :: "'w ToolManager \<Rightarrow> string \<Rightarrow> json \<Rightarrow> 'w \<Rightarrow> ToolResult \<times> 'w" where
  "execute_tool tools n args w =
     (case tools n of
        None \<Rightarrow> (Error (''Tool not found: '' @ n), w)
      | Some t \<Rightarrow> t args w)"

text \<open>\<^verbatim>\<open>result.is_success ? result.content : result.error_message\<close>\<close>

fun result_text :: "ToolResult \<Rightarrow> string" where
  "result_text (Success c) = c"
| "result_text (Error m) = m"

text \<open>
  The loop of \<^verbatim>\<open>main\<close> over the tool calls of a response: a call of an unregistered
  tool is reported and skipped, a registered one is executed and its result appended
  to the conversation.
\<close>

fun process_tool_calls ::
  "'w ToolManager \<Rightarrow> ToolCall list \<Rightarrow> ChatMessage list \<Rightarrow> 'w \<Rightarrow> ChatMessage list \<times> 'w" where
  "process_tool_calls tools [] conversation w = (conversation, w)"
| "process_tool_calls tools (tool_call # rest) conversation w =
     (if \<not> has_tool tools (tc_name tool_call)
      then process_tool_calls tools rest conversation w
      else (case execute_tool tools (tc_name tool_call) (tc_arguments tool_call) w of
              (result, w1) \<Rightarrow>
                process_tool_calls tools rest
                  (conversation @ [make_tool_response (result_text result) (tc_name tool_call)])
                  w1))"

section \<open>The tool round, as the specification words it\<close>

text \<open>
  Executing a list of tool calls through the registry one after the other, in the order
  of the list: the results in that order, and the world the last execution leaves.
\<close>

fun sequential_results ::
  "'w ToolManager \<Rightarrow> ToolCall list \<Rightarrow> 'w \<Rightarrow> ToolResult list \<times> 'w" where
  "sequential_results tools [] w = ([], w)"
| "sequential_results tools (tool_call # rest) w =
     (case execute_tool tools (tc_name tool_call) (tc_arguments tool_call) w of
        (result, w1) \<Rightarrow>
          (case sequential_results tools rest w1 of
             (results, w2) \<Rightarrow> (result # results, w2)))"

text \<open>The one message a tool call and its result make.\<close>

definition tool_message :: "ToolCall \<Rightarrow> ToolResult \<Rightarrow> ChatMessage" where
  "tool_message tool_call result =
     \<lparr>role = ''tool'', content = result_text result, name = tc_name tool_call, tool_calls = []\<rparr>"

section \<open>The stream, as the specification words it\<close>

text \<open>
  Modelled from the spec: the content field of the JSON record on a line, the text of
  \<^verbatim>\<open>message.content\<close> when the line parses to a value that has one, nothing otherwise.
\<close>

definition record_content :: "parser \<Rightarrow> string \<Rightarrow> string list" where
  "record_content parse line =
     (case parse line of
        Parsed j \<Rightarrow>
          (case json_at j ''message'' of
             None \<Rightarrow> []
           | Some m \<Rightarrow>
               (case json_at m ''content'' of
                  Some (JString s) \<Rightarrow> [s]
                | _ \<Rightarrow> []))
      | _ \<Rightarrow> [])"

text \<open>
  A line is well typed when it holds no number out of range and its
  \<^verbatim>\<open>message.content\<close>, if it has one, is a string.
\<close>

definition content_is_string :: "parser \<Rightarrow> string \<Rightarrow> bool" where
  "content_is_string parse line =
     (case parse line of
        ParseError \<Rightarrow> True
      | OutOfRange \<Rightarrow> False
      | Parsed j \<Rightarrow>
          (case json_at j ''message'' of
             None \<Rightarrow> True
           | Some m \<Rightarrow>
               (case json_at m ''content'' of
                  None \<Rightarrow> True
                | Some (JString s) \<Rightarrow> True
                | Some v \<Rightarrow> False)))"

text \<open>The bytes of a sequence of complete lines followed by an unfinished one.\<close>

definition stream_bytes :: "string list \<Rightarrow> string \<Rightarrow> string" where
  "stream_bytes lines partial = concat (map (\<lambda>l. l @ [CHR 0x0A]) lines) @ partial"

section \<open>Reading a trace\<close>

text \<open>The events a tool adds to the trace when it takes the world from \<open>w\<close> to \<open>w'\<close>.\<close>

definition new_events :: "world \<Rightarrow> world \<Rightarrow> event list" where
  "new_events w w' = drop (length (trace w)) (trace w')"

text \<open>The number of dialogs in a list of events before its first side effect.\<close>

definition gates_before_effect :: "event list \<Rightarrow> nat" where
  "gates_before_effect evs = length (filter is_gate (takeWhile (\<lambda>e. \<not> is_side_effect e) evs))"

text \<open>
  A denial at the gate is harmless when the tool returns an error, no side effect is
  among the events it adds, and the files and directories are as before.
\<close>

definition denial_is_harmless :: "ToolResult \<Rightarrow> world \<Rightarrow> world \<Rightarrow> event list \<Rightarrow> bool" where
  "denial_is_harmless r w w' new =
     ((\<exists>e \<in> set new. is_denial e) \<longrightarrow>
        \<not> is_success r \<and> (\<forall>e \<in> set new. \<not> is_side_effect e) \<and>
        files w' = files w \<and> dirs w' = dirs w)"

section \<open>Example inputs\<close>

definition example_config :: config where
  "example_config = \<lparr>is_calc_safety_ignored = False, is_shell_safety_ignored = False,
     is_auto_confirm_shell = False, is_auto_confirm_file_ops = False\<rparr>"

definition example_world :: "char list \<Rightarrow> (string \<rightharpoonup> string) \<Rightarrow> proc option \<Rightarrow> world" where
  "example_world ks fs p =
     \<lparr>keys = ks, trace = [], files = fs, dirs = {},
      os_popen = (\<lambda>cmd fs'. (p, fs')), os_can_read = (\<lambda>path. True),
      os_can_write = (\<lambda>path. True), os_exists_error = (\<lambda>path. None),
      os_create_directories_error = (\<lambda>path. None)\<rparr>"

definition calc_demo_args :: json where
  "calc_demo_args = JObject [(''expression'', JString ''2+2; $rm'')]"

definition calc_demo_world :: world where
  "calc_demo_world =
     example_world [CHR 0x0D] Map.empty
       (Some \<lparr>reads = [(0, Some [CHR ''4'', CHR 0x0A])], exit_code = 0\<rparr>)"

definition edit_demo_world :: "char list \<Rightarrow> world" where
  "edit_demo_world ks =
     example_world ks
       [''notes.txt'' \<mapsto> [CHR ''a'', CHR 0x0A, CHR ''b'', CHR 0x0A, CHR ''c'', CHR 0x0A]] None"

definition insert_demo_args :: "int \<Rightarrow> json" where
  "insert_demo_args n =
     JObject [(''path'', JString ''notes.txt''), (''insert_at_line'', JInt n),
              (''text'', JString ''x'')]"

definition replace_demo_args :: json where
  "replace_demo_args =
     JObject [(''path'', JString ''notes.txt''), (''old_text'', JString ''xyz''),
              (''new_text'', JString ''abc'')]"

definition shell_demo_args :: json where
  "shell_demo_args = JObject [(''command'', JString ''rm notes.txt'')]"

definition bash_demo_args :: json where
  "bash_demo_args =
     JObject [(''command'', JString ''rm -rf build''), (''working_directory'', JString ''/tmp'')]"

definition shell_demo_world :: "char list \<Rightarrow> world" where
  "shell_demo_world ks = example_world ks Map.empty (Some \<lparr>reads = [], exit_code = 0\<rparr>)"

definition auto_config :: config where
  "auto_config = \<lparr>is_calc_safety_ignored = False, is_shell_safety_ignored = False,
     is_auto_confirm_shell = True, is_auto_confirm_file_ops = True\<rparr>"

definition ls_demo_args :: json where
  "ls_demo_args = JObject [(''command'', JString ''ls''), (''working_directory'', JString ''/tmp'')]"

definition write_demo_args :: json where
  "write_demo_args = JObject [(''path'', JString ''notes.txt''), (''content'', JString ''hi'')]"

definition append_demo_args :: json where
  "append_demo_args = JObject [(''path'', JString ''notes.txt''), (''append'', JString ''d'')]"

definition demo_tools :: "world ToolManager" where
  "demo_tools = [''calculator'' \<mapsto> calculator_execute example_config]"

definition demo_calls :: "ToolCall list" where
  "demo_calls =
     [\<lparr>tc_id = ''1'', tc_name = ''shell_tool'',
       tc_arguments = JObject [(''command'', JString ''ls'')]\<rparr>,
      \<lparr>tc_id = ''2'', tc_name = ''calculator'', tc_arguments = calc_demo_args\<rparr>]"

definition demo_net :: "bool \<Rightarrow> nat \<Rightarrow> string list \<Rightarrow> net" where
  "demo_net ok res chunks =
     \<lparr>curl_easy_init_ok = ok, json_dump = (\<lambda>j. Some ''{}''),
      curl_easy_perform = (\<lambda>url body. (res, chunks))\<rparr>"

text \<open>Two lines of a stream, and a parser that knows them.\<close>

definition null_line :: string where
  \<open>null_line = ''{"message":{"content":null}}''\<close>

definition text_line :: string where
  \<open>text_line = ''{"message":{"content":"x"}}''\<close>

definition stream_demo_parse :: parser where
  "stream_demo_parse s =
     (case map_of [(null_line, JObject [(''message'', JObject [(''content'', JNull)])]),
                   (text_line, JObject [(''message'', JObject [(''content'', JString ''x'')])])] s of
        Some j \<Rightarrow> Parsed j
      | None \<Rightarrow> ParseError)"

text \<open>
  A message with three tool calls, and a parser that knows the texts \<^verbatim>\<open>[7]\<close> and \<^verbatim>\<open>{}\<close>
  and, as the library does, finds the number of \<^verbatim>\<open>1e999\<close> out of range.
\<close>

definition tool_demo_parse :: parser where
  "tool_demo_parse s =
     (if s = ''1e999'' then OutOfRange
      else (case map_of [(''[7]'', JArray [JInt 7]), (''{}'', JObject [])] s of
              Some j \<Rightarrow> Parsed j
            | None \<Rightarrow> ParseError))"

definition tool_demo_entries :: "json list" where
  "tool_demo_entries =
     [JObject [(''id'', JString ''a''),
               (''function'', JObject [(''name'', JString ''calculator''),
                                      (''arguments'', JString ''[7]'')])],
      JObject [(''function'', JObject [(''name'', JString ''calculator''),
                                      (''arguments'', JString ''2+2'')])],
      JObject [(''function'', JObject [(''name'', JString ''calculator''),
                                      (''arguments'',
                                       JObject [(''expression'', JString ''2+2'')])])]]"

definition tool_demo_message :: json where
  "tool_demo_message =
     JObject [(''content'', JString []), (''tool_calls'', JArray tool_demo_entries)]"

text \<open>A message with one tool call, whose arguments are the text \<^verbatim>\<open>1e999\<close>.\<close>

definition overflow_demo_entry :: json where
  "overflow_demo_entry =
     JObject [(''id'', JString ''a''),
              (''function'', JObject [(''name'', JString ''calculator''),
                                     (''arguments'', JString ''1e999'')])]"

definition overflow_demo_message :: json where
  "overflow_demo_message =
     JObject [(''content'', JString []), (''tool_calls'', JArray [overflow_demo_entry])]"

section \<open>Properties of the gate and of the trace\<close>

lemma example_world_sel:
  "keys (example_world ks fs p) = ks" "trace (example_world ks fs p) = []"
  "files (example_world ks fs p) = fs" "dirs (example_world ks fs p) = {}"
  "os_popen (example_world ks fs p) cmd fs' = (p, fs')"
  "os_can_read (example_world ks fs p) path" "os_can_write (example_world ks fs p) path"
  "os_exists_error (example_world ks fs p) path = None"
  "os_create_directories_error (example_world ks fs p) path = None"
  by (simp_all add: example_world_def)

lemma example_config_sel:
  "\<not> is_calc_safety_ignored example_config" "\<not> is_shell_safety_ignored example_config"
  "\<not> is_auto_confirm_shell example_config" "\<not> is_auto_confirm_file_ops example_config"
  by (simp_all add: example_config_def)

lemma confirm_dialog_trace:
  "confirm_dialog t a b c d w = (r, w') \<Longrightarrow> trace w' = trace w @ [Gate t a b c d r]"
  by (auto simp: confirm_dialog_def get_keypress_def log_event_def Let_def split: list.splits)

lemma confirm_dialog_files:
  "confirm_dialog t a b c d w = (r, w') \<Longrightarrow> files w' = files w \<and> dirs w' = dirs w"
  by (auto simp: confirm_dialog_def get_keypress_def log_event_def Let_def split: list.splits)

lemma confirm_dialog_eval:
  "confirm_dialog t a b c d w =
     (case keys w of
        [] \<Rightarrow> (False, log_event (Gate t a b c d False) w)
      | k # ks \<Rightarrow> (k = CHR 0x0D \<or> k = CHR 0x0A,
                  log_event (Gate t a b c d (k = CHR 0x0D \<or> k = CHR 0x0A)) (w\<lparr>keys := ks\<rparr>)))"
  by (simp add: confirm_dialog_def get_keypress_def Let_def split: list.splits)

lemma popen_trace: "popen cmd w = (p, w') \<Longrightarrow> trace w' = trace w @ [Popen cmd]"
  by (auto simp: popen_def log_event_def Let_def split: prod.splits)

section \<open>The calculator's command line\<close>

lemma take_500_if: "(if length e > 500 then take 500 e else e) = take 500 e"
  by simp

lemma calc_evaluate_trace:
  "calc_evaluate e w = (r, w') \<Longrightarrow>
   trace w' = trace w @ [Popen (''echo '' @ [sq] @ take 500 e @ [sq] @ '' | BC_LINE_LENGTH=0 bc -l'')]"
  unfolding calc_evaluate_def Let_def
  by (auto split: prod.splits option.splits sum.splits calc_read_error.splits if_splits
      dest!: popen_trace)

text \<open>
  What one execution of the calculator adds to the trace: at most one dialog, then at
  most one \<^verbatim>\<open>popen\<close>, of the command line built from the sanitized expression.
\<close>

lemma calculator_execute_events:
  assumes "calculator_execute cfg args w = (r, w')"
  shows "\<exists>gs ps. trace w' = trace w @ gs @ ps \<and> (\<forall>g\<in>set gs. is_gate g) \<and>
           (ps = [] \<or>
            (\<exists>e. ps = [Popen (''echo '' @ [sq]
                                @ take 500 (filter (\<lambda>c. c \<in> set allowed_chars) e)
                                @ [sq] @ '' | BC_LINE_LENGTH=0 bc -l'')]))"
proof (cases "json_string_at args ''expression''")
  case None
  with assms have "trace w' = trace w @ [] @ []" by (simp add: calculator_execute_def)
  then show ?thesis by (metis empty_iff list.set(1))
next
  case (Some expression)
  let ?s = "filter (\<lambda>c. c \<in> set allowed_chars) expression"
  let ?P = "Popen (''echo '' @ [sq] @ take 500 ?s @ [sq] @ '' | BC_LINE_LENGTH=0 bc -l'')"
  from assms Some consider
      (direct) "calc_evaluate ?s w = (r, w')"
    | (denied) t a b c d where "confirm_dialog t a b c d w = (False, w')"
    | (confirmed) t a b c d w1 where
        "confirm_dialog t a b c d w = (True, w1)" "calc_evaluate ?s w1 = (r, w')"
    unfolding calculator_execute_def Let_def
    by (auto split: prod.splits if_splits)
  then show ?thesis
  proof cases
    case direct
    then have "trace w' = trace w @ [] @ [?P]" by (simp add: calc_evaluate_trace)
    then show ?thesis by (metis empty_iff list.set(1))
  next
    case denied
    then have "trace w' = trace w @ [Gate t a b c d False] @ []"
      by (simp add: confirm_dialog_trace)
    then show ?thesis by (metis is_gate.simps(1) empty_iff empty_set set_ConsD)
  next
    case confirmed
    then have "trace w' = trace w @ [Gate t a b c d True] @ [?P]"
      by (simp add: confirm_dialog_trace calc_evaluate_trace)
    then show ?thesis by (metis is_gate.simps(1) empty_iff empty_set set_ConsD)
  qed
qed

lemma allowed_chars_no_shell_syntax:
  "sq \<notin> set allowed_chars" "CHR ''`'' \<notin> set allowed_chars"
  "CHR ''$'' \<notin> set allowed_chars" "CHR '';'' \<notin> set allowed_chars"
  by (simp_all add: allowed_chars_def sq_def)

text \<open>
  Claim C9. Whatever the arguments, every command line the calculator hands to
  \<^verbatim>\<open>popen\<close> is \<^verbatim>\<open>echo '\<close>\<open>s\<close>\<^verbatim>\<open>' | BC_LINE_LENGTH=0 bc -l\<close> for a text \<open>s\<close> of at most
  500 characters, all of them from the allowed set; \<open>s\<close> holds no single quote, no
  backtick, no dollar sign and no semicolon.
\<close>

theorem calculator_command_sanitized:
  assumes "calculator_execute cfg args w = (r, w')"
  shows "\<exists>new. trace w' = trace w @ new \<and>
           (\<forall>cmd. Popen cmd \<in> set new \<longrightarrow>
              (\<exists>s. cmd = ''echo '' @ [sq] @ s @ [sq] @ '' | BC_LINE_LENGTH=0 bc -l'' \<and>
                   set s \<subseteq> set allowed_chars \<and> length s \<le> 500 \<and>
                   sq \<notin> set s \<and> CHR ''`'' \<notin> set s \<and>
                   CHR ''$'' \<notin> set s \<and> CHR '';'' \<notin> set s))"
proof -
  from calculator_execute_events [OF assms] obtain gs ps where
    tr: "trace w' = trace w @ gs @ ps" and gs: "\<forall>g\<in>set gs. is_gate g" and
    ps: "ps = [] \<or>
         (\<exists>e. ps = [Popen (''echo '' @ [sq]
                             @ take 500 (filter (\<lambda>c. c \<in> set allowed_chars) e)
                             @ [sq] @ '' | BC_LINE_LENGTH=0 bc -l'')])"
    by blast
  have "\<exists>s. cmd = ''echo '' @ [sq] @ s @ [sq] @ '' | BC_LINE_LENGTH=0 bc -l'' \<and>
            set s \<subseteq> set allowed_chars \<and> length s \<le> 500 \<and>
            sq \<notin> set s \<and> CHR ''`'' \<notin> set s \<and> CHR ''$'' \<notin> set s \<and> CHR '';'' \<notin> set s"
    if "Popen cmd \<in> set (gs @ ps)" for cmd
  proof -
    from that gs have "Popen cmd \<in> set ps" by auto
    with ps obtain e where
      cmd: "cmd = ''echo '' @ [sq] @ take 500 (filter (\<lambda>c. c \<in> set allowed_chars) e)
                  @ [sq] @ '' | BC_LINE_LENGTH=0 bc -l''"
      by auto
    let ?s = "take 500 (filter (\<lambda>c. c \<in> set allowed_chars) e)"
    have sub: "set ?s \<subseteq> set allowed_chars"
      using set_take_subset [of 500 "filter (\<lambda>c. c \<in> set allowed_chars) e"] by auto
    have "length ?s \<le> 500" by simp
    with cmd sub allowed_chars_no_shell_syntax show ?thesis by blast
  qed
  with tr show ?thesis by blast
qed

lemma calc_demo_sanitized:
  "filter (\<lambda>c. c \<in> set allowed_chars) ''2+2; $rm'' = ''2+2 rm''"
  by (simp add: allowed_chars_def)

lemma calc_demo_blocked: "is_expression_safe ''2+2 rm'' = (False, ''rm'')"
  by (simp add: is_expression_safe_def first_blocked_def calc_blocked_patterns_def
      str_contains_def)

lemma calc_demo_trim: "trim [CHR ''4'', CHR 0x0A] = ''4''"
  by (simp add: trim_def is_space_def)

lemma calc_demo_no_error:
  "\<not> str_contains ''4'' ''syntax error''" "\<not> str_contains ''4'' ''error''"
  by (simp_all add: str_contains_def)

lemma calc_demo_run:
  "calculator_execute example_config calc_demo_args calc_demo_world =
     (Success ''4'',
      calc_demo_world\<lparr>keys := [], trace :=
         [Gate CALCULATION ''The expression contains a potentially unsafe pattern:''
            (sq # ''rm'' @ sq # '' found in: 2+2; $rm'')
            ''This might be a false positive, but could be an attempt to execute code.''
            ''Tip: Use --ignore-calc-safety to disable these warnings.'' True,
          Popen (''echo '' @ sq # ''2+2 rm'' @ sq # '' | BC_LINE_LENGTH=0 bc -l'')]\<rparr>)"
proof -
  have a: "json_string_at calc_demo_args ''expression'' = Some ''2+2; $rm''"
    by (simp add: json_string_at_def calc_demo_args_def)
  show ?thesis
    unfolding calculator_execute_def a option.case calc_demo_sanitized calc_evaluate_def
      take_500_if
    by (simp add: example_config_sel calc_demo_blocked calc_demo_trim calc_demo_no_error
        confirm_dialog_eval popen_def log_event_def calc_demo_world_def example_world_sel)
qed

text \<open>
  The theorem at work: the expression \<^verbatim>\<open>2+2; $rm\<close>, confirmed at the gate, reaches the
  evaluator as \<^verbatim>\<open>2+2 rm\<close>.
\<close>

theorem calculator_command_sanitized_witness:
  "\<exists>w' new s.
     calculator_execute example_config calc_demo_args calc_demo_world = (Success ''4'', w') \<and>
     trace w' = trace calc_demo_world @ new \<and>
     Popen (''echo '' @ [sq] @ s @ [sq] @ '' | BC_LINE_LENGTH=0 bc -l'') \<in> set new \<and>
     s = ''2+2 rm'' \<and> set s \<subseteq> set allowed_chars \<and> length s \<le> 500 \<and> sq \<notin> set s"
proof -
  let ?cmd = "''echo '' @ sq # ''2+2 rm'' @ sq # '' | BC_LINE_LENGTH=0 bc -l''"
  from calculator_command_sanitized [OF calc_demo_run] obtain new where
    new: "trace calc_demo_world @ new =
          [Gate CALCULATION ''The expression contains a potentially unsafe pattern:''
            (sq # ''rm'' @ sq # '' found in: 2+2; $rm'')
            ''This might be a false positive, but could be an attempt to execute code.''
            ''Tip: Use --ignore-calc-safety to disable these warnings.'' True,
           Popen ?cmd]"
    and sh: "\<forall>cmd. Popen cmd \<in> set new \<longrightarrow>
              (\<exists>s. cmd = ''echo '' @ [sq] @ s @ [sq] @ '' | BC_LINE_LENGTH=0 bc -l'' \<and>
                   set s \<subseteq> set allowed_chars \<and> length s \<le> 500 \<and>
                   sq \<notin> set s \<and> CHR ''`'' \<notin> set s \<and>
                   CHR ''$'' \<notin> set s \<and> CHR '';'' \<notin> set s)"
    by auto
  have tw: "trace calc_demo_world = []"
    by (simp add: calc_demo_world_def example_world_sel)
  from new tw have mem: "Popen ?cmd \<in> set new" by simp
  with sh obtain s where
    s: "?cmd = ''echo '' @ [sq] @ s @ [sq] @ '' | BC_LINE_LENGTH=0 bc -l''"
    "set s \<subseteq> set allowed_chars" "length s \<le> 500" "sq \<notin> set s"
    by blast
  from s(1) have "s = ''2+2 rm''" by simp
  with s mem new tw calc_demo_run show ?thesis by auto
qed

section \<open>The file edit tool\<close>

lemma str_find_None_iff: "str_find s pat = None \<longleftrightarrow> \<not> sublist pat s"
proof (induction s)
  case Nil
  then show ?case by simp
next
  case (Cons c cs)
  then show ?case by (auto simp: sublist_Cons_right)
qed

lemma str_contains_iff: "str_contains s pat \<longleftrightarrow> sublist pat s"
  by (simp add: str_contains_def str_find_None_iff)

lemma trace_write_file: "trace (write_file p c w) = trace w @ [FileWrite p c]"
  by (simp add: write_file_def log_event_def)

lemma file_edit_apply_failed:
  assumes "perform_edit operation c = EditFailed m"
  shows "file_edit_apply operation p c w = Some (Error m, w)"
  using assms by (simp add: file_edit_apply_def)

text \<open>
  Claim C6. A find/replace edit of an existing file whose content does not contain the
  old text returns an error, leaves every file as it was and writes nothing: no event
  other than a dialog is added to the trace.
\<close>

theorem file_edit_old_text_not_found:
  assumes path: "json_string_at args ''path'' = Some file_path"
    and sel: "select_operation args = REPLACE_TEXT old_text new_text"
    and fl: "files w file_path = Some contents"
    and absent: "\<not> sublist old_text contents"
  shows "\<exists>m w'. file_edit_execute cfg args w = Some (Error m, w') \<and>
           files w' = files w \<and>
           (\<forall>e \<in> set (trace w'). is_side_effect e \<longrightarrow> e \<in> set (trace w))"
proof -
  have rd: "read_file w file_path = contents" using fl by (simp add: read_file_def)
  have pe: "perform_edit (REPLACE_TEXT old_text new_text) contents =
              EditFailed ''Could not find the text to replace in the file''"
    using absent by (simp add: str_find_None_iff [symmetric])
  note ap = file_edit_apply_failed [OF pe]
  show ?thesis
  proof (cases "is_auto_confirm_file_ops cfg")
    case True
    then show ?thesis
      using path sel rd ap by (auto simp: file_edit_execute_def Let_def split: option.splits)
  next
    case False
    obtain confirmed w1 where cd: "confirm_dialog FILE_OPERATION
           ''The AI is requesting to edit the file:'' file_path
           (edit_details (REPLACE_TEXT old_text new_text)) [] w = (confirmed, w1)"
      by (cases "confirm_dialog FILE_OPERATION
           ''The AI is requesting to edit the file:'' file_path
           (edit_details (REPLACE_TEXT old_text new_text)) [] w") blast
    from confirm_dialog_trace [OF cd] confirm_dialog_files [OF cd]
    have w1: "files w1 = files w" "\<forall>e \<in> set (trace w1). is_side_effect e \<longrightarrow> e \<in> set (trace w)"
      by auto
    show ?thesis
      using False path sel rd ap [of file_path w1] cd w1
      by (auto simp: file_edit_execute_def Let_def simp del: edit_details.simps
          split: option.splits)
  qed
qed


lemma to_int32_id: "- 2147483648 \<le> x \<Longrightarrow> x < 2147483648 \<Longrightarrow> to_int32 x = x"
  by (simp add: to_int32_def)

lemma clamp_line_number_small:
  assumes "n < 2147483648"
  shows "clamp_line_number n0 n = max 0 (min n0 (int n))"
proof -
  have "to_int32 (int n) = int n" using assms by (intro to_int32_id) auto
  then show ?thesis by (auto simp: clamp_line_number_def)
qed

lemma perform_edit_insert_line:
  assumes "length (getlines c) < 2147483648"
  shows "perform_edit (INSERT_LINE n0 t) c =
           Edited (join_lines (take (nat (max 0 (min n0 (int (length (getlines c)))))) (getlines c)
                     @ [t] @ drop (nat (max 0 (min n0 (int (length (getlines c)))))) (getlines c)))"
  using assms by (simp add: clamp_line_number_small Let_def)

lemma files_write_file: "files (write_file p c w) = (files w)(p \<mapsto> c)"
  by (simp add: write_file_def log_event_def)

lemma file_edit_apply_edited:
  assumes "perform_edit operation c = Edited c'"
  shows "\<exists>r w'. file_edit_apply operation p c w = Some (r, w') \<and>
           (is_success r \<longrightarrow> files w' p = Some c')"
  using assms by (simp add: file_edit_apply_def files_write_file)

text \<open>What the tool returns, in terms of the part after the confirmation.\<close>

lemma file_edit_execute_cases:
  obtains (early) m where "file_edit_execute cfg args w = Some (Error m, w)"
  | (denied) m w1 where "\<not> is_auto_confirm_file_ops cfg"
      "file_edit_execute cfg args w = Some (Error m, w1)" "files w1 = files w"
      "trace w1 = trace w @ [Gate FILE_OPERATION ''The AI is requesting to edit the file:''
          (the (json_string_at args ''path'')) (edit_details (select_operation args)) [] False]"
  | (direct) p where "json_string_at args ''path'' = Some p" "is_auto_confirm_file_ops cfg"
      "file_edit_execute cfg args w = file_edit_apply (select_operation args) p (read_file w p) w"
  | (confirmed) p w1 where "json_string_at args ''path'' = Some p" "\<not> is_auto_confirm_file_ops cfg"
      "files w1 = files w" "dirs w1 = dirs w" "os_can_write w1 = os_can_write w"
      "trace w1 = trace w @ [Gate FILE_OPERATION ''The AI is requesting to edit the file:''
          p (edit_details (select_operation args)) [] True]"
      "file_edit_execute cfg args w = file_edit_apply (select_operation args) p (read_file w p) w1"
proof (cases "json_string_at args ''path''")
  case None
  then show ?thesis by (intro early) (simp add: file_edit_execute_def)
next
  case (Some p)
  show ?thesis
  proof (cases "str_contains p ''..'' \<or> os_exists_error w p \<noteq> None \<or> \<not> fs_exists w p
                 \<or> \<not> os_can_read w p \<or> select_operation args = UNKNOWN")
    case True
    with Some have "\<exists>m. file_edit_execute cfg args w = Some (Error m, w)"
      by (auto simp: file_edit_execute_def Let_def split: option.splits)
    with early show ?thesis by blast
  next
    case ok: False
    show ?thesis
    proof (cases "is_auto_confirm_file_ops cfg")
      case True
      with Some ok show ?thesis by (intro direct [of p]) (auto simp: file_edit_execute_def Let_def)
    next
      case False
      obtain c w1 where cd: "confirm_dialog FILE_OPERATION
           ''The AI is requesting to edit the file:'' p
           (edit_details (select_operation args)) [] w = (c, w1)"
        by (cases "confirm_dialog FILE_OPERATION
           ''The AI is requesting to edit the file:'' p
           (edit_details (select_operation args)) [] w") blast
      have ow: "os_can_write w1 = os_can_write w"
        using cd by (auto simp: confirm_dialog_def get_keypress_def log_event_def Let_def
            split: list.splits)
      show ?thesis
      proof (cases c)
        case True
        with Some ok False cd confirm_dialog_trace [OF cd] confirm_dialog_files [OF cd] ow
        show ?thesis
          by (intro confirmed [of p w1]) (auto simp: file_edit_execute_def Let_def)
      next
        case cF: False
        with Some ok False cd confirm_dialog_trace [OF cd] confirm_dialog_files [OF cd]
        show ?thesis
          by (intro denied [of _ w1]) (auto simp: file_edit_execute_def Let_def)
      qed
    qed
  qed
qed

text \<open>
  An insert-at-line edit of a file of fewer than \<open>2\<^sup>3\<^sup>1\<close> lines returns, and when it
  succeeds the file holds its lines with the text inserted at the index
  \<open>max 0 (min n0 (number of lines))\<close>, where \<open>n0\<close> is the \<^verbatim>\<open>int\<close> that \<^verbatim>\<open>get<int>()\<close> made
  of the line number: the bounds check itself clamps to the interval from 0 to the
  number of lines.
\<close>

lemma insert_line_index_clamped:
  assumes path: "json_string_at args ''path'' = Some p"
    and sel: "select_operation args = INSERT_LINE n0 t"
    and small: "length (getlines (read_file w p)) < 2147483648"
  shows "\<exists>r w'. file_edit_execute cfg args w = Some (r, w') \<and>
           (is_success r \<longrightarrow>
              files w' p =
                Some (join_lines
                       (take (nat (max 0 (min n0 (int (length (getlines (read_file w p)))))))
                            (getlines (read_file w p))
                        @ [t]
                        @ drop (nat (max 0 (min n0 (int (length (getlines (read_file w p)))))))
                            (getlines (read_file w p)))))"
proof -
  note pe = perform_edit_insert_line [OF small, of n0 t]
  show ?thesis
  proof (cases rule: file_edit_execute_cases [of cfg args w])
    case (early m)
    then show ?thesis by simp
  next
    case (denied m w1)
    then show ?thesis by simp
  next
    case (direct p')
    with path sel file_edit_apply_edited [OF pe, of p w] show ?thesis by simp
  next
    case (confirmed p' w1)
    with path sel file_edit_apply_edited [OF pe, of p w1] show ?thesis by simp
  qed
qed












lemma file_edit_execute_run:
  assumes "json_string_at args ''path'' = Some p" "\<not> str_contains p ''..''"
    and "fs_exists w p" "os_can_read w p" "os_can_write w p"
    and "select_operation args \<noteq> UNKNOWN"
    and "is_auto_confirm_file_ops cfg \<or> keys w = CHR 0x0D # ks"
    and "perform_edit (select_operation args) (read_file w p) = Edited c'"
    and "os_exists_error w p = None"
  shows "\<exists>w'. file_edit_execute cfg args w = Some (Success (''File successfully edited: '' @ p), w')
           \<and> files w' = (files w)(p \<mapsto> c')"
proof (cases "is_auto_confirm_file_ops cfg")
  case True
  with assms show ?thesis
    by (simp add: file_edit_execute_def file_edit_apply_def files_write_file)
next
  case False
  with assms show ?thesis
    by (simp add: file_edit_execute_def file_edit_apply_def files_write_file
        confirm_dialog_eval log_event_def write_file_def)
qed

lemma edit_demo_world_facts:
  "read_file (edit_demo_world ks) ''notes.txt'' = [CHR ''a'', CHR 0x0A, CHR ''b'', CHR 0x0A, CHR ''c'', CHR 0x0A]"
  "fs_exists (edit_demo_world ks) ''notes.txt''"
  "os_can_read (edit_demo_world ks) ''notes.txt''"
  "os_can_write (edit_demo_world ks) ''notes.txt''"
  "keys (edit_demo_world ks) = ks"
  "files (edit_demo_world ks) ''notes.txt'' = Some [CHR ''a'', CHR 0x0A, CHR ''b'', CHR 0x0A, CHR ''c'', CHR 0x0A]"
  "os_exists_error (edit_demo_world ks) ''notes.txt'' = None"
  by (simp_all add: edit_demo_world_def read_file_def fs_exists_def example_world_sel)

lemma insert_demo_args_facts:
  "json_string_at (insert_demo_args n) ''path'' = Some ''notes.txt''"
  "select_operation (insert_demo_args n) =
     INSERT_LINE (if - 9223372036854775808 \<le> n \<and> n < 18446744073709551616 then to_int32 n
                  else - 2147483648) ''x''"
  by (simp_all add: insert_demo_args_def json_string_at_def json_int_at_def select_operation_def)

lemma notes_path_ok: "\<not> str_contains ''notes.txt'' ''..''"
  by (simp add: str_contains_def)

lemma demo_getlines:
  "getlines [CHR ''a'', CHR 0x0A, CHR ''b'', CHR 0x0A, CHR ''c'', CHR 0x0A] = [''a'', ''b'', ''c'']"
  by (simp add: getlines_def)

text \<open>
  Claim C7, at an input where the code breaks it. On the three lines \<^verbatim>\<open>a\<close>, \<^verbatim>\<open>b\<close>, \<^verbatim>\<open>c\<close>
  the line number -5 prepends and 99 appends. The line number 2147483648, clamped to the
  interval from 0 to 3, is 3; but \<^verbatim>\<open>get<int>()\<close> narrows it to -2147483648 before the
  bounds check, which then gives 0: the text is inserted before the first line and not
  after the last. In the same way 4294967297 is narrowed to 1, and the floating-point
  number 10000000000 is converted to the least \<^verbatim>\<open>int\<close>.
\<close>

theorem insert_line_number_narrowed:
  "select_operation (insert_demo_args (- 5)) = INSERT_LINE (- 5) ''x'' \<and>
   select_operation (insert_demo_args 99) = INSERT_LINE 99 ''x'' \<and>
   length (getlines (read_file (edit_demo_world [CHR 0x0D]) ''notes.txt'')) = 3 \<and>
   (\<exists>m w'. file_edit_execute example_config (insert_demo_args (- 5)) (edit_demo_world [CHR 0x0D])
              = Some (Success m, w') \<and>
            files w' ''notes.txt''
              = Some [CHR ''x'', CHR 0x0A, CHR ''a'', CHR 0x0A, CHR ''b'', CHR 0x0A, CHR ''c'']) \<and>
   (\<exists>m w'. file_edit_execute example_config (insert_demo_args 99) (edit_demo_world [CHR 0x0D])
              = Some (Success m, w') \<and>
            files w' ''notes.txt''
              = Some [CHR ''a'', CHR 0x0A, CHR ''b'', CHR 0x0A, CHR ''c'', CHR 0x0A, CHR ''x'']) \<and>
   json_at (insert_demo_args 2147483648) ''insert_at_line'' = Some (JInt 2147483648) \<and>
   max 0 (min 2147483648
            (int (length (getlines (read_file (edit_demo_world [CHR 0x0D]) ''notes.txt''))))) = 3 \<and>
   select_operation (insert_demo_args 2147483648) = INSERT_LINE (- 2147483648) ''x'' \<and>
   clamp_line_number (- 2147483648)
     (length (getlines (read_file (edit_demo_world [CHR 0x0D]) ''notes.txt''))) = 0 \<and>
   (\<exists>m w'. file_edit_execute example_config (insert_demo_args 2147483648)
              (edit_demo_world [CHR 0x0D])
              = Some (Success m, w') \<and>
            files w' ''notes.txt''
              = Some [CHR ''x'', CHR 0x0A, CHR ''a'', CHR 0x0A, CHR ''b'', CHR 0x0A, CHR ''c'']) \<and>
   json_number_as_int (JInt 4294967297) = Some 1 \<and>
   json_number_as_int (JFloat 10000000000) = Some (- 2147483648)"
proof -
  let ?w = "edit_demo_world [CHR 0x0D]"
  have n: "json_number_as_int (JInt 4294967297) = Some 1"
    "json_number_as_int (JFloat 10000000000) = Some (- 2147483648)"
    by (simp_all add: to_int32_def double_to_int32_def)
  have sel1: "select_operation (insert_demo_args (- 5)) = INSERT_LINE (- 5) ''x''"
    and sel2: "select_operation (insert_demo_args 99) = INSERT_LINE 99 ''x''"
    and sel3: "select_operation (insert_demo_args 2147483648) = INSERT_LINE (- 2147483648) ''x''"
    by (simp_all add: insert_demo_args_facts to_int32_def)
  have j: "json_at (insert_demo_args 2147483648) ''insert_at_line'' = Some (JInt 2147483648)"
    by (simp add: insert_demo_args_def)
  have len: "length (getlines (read_file ?w ''notes.txt'')) = 3"
    by (simp add: edit_demo_world_facts demo_getlines)
  then have small: "length (getlines (read_file ?w ''notes.txt'')) < 2147483648" by simp
  have ok: "\<exists>m w'. file_edit_execute example_config (insert_demo_args n) ?w = Some (Success m, w')"
    if "select_operation (insert_demo_args n) = INSERT_LINE n0 ''x''" for n n0
  proof -
    from perform_edit_insert_line [OF small, of n0 "''x''"] that
    have "\<exists>c'. perform_edit (select_operation (insert_demo_args n)) (read_file ?w ''notes.txt'')
            = Edited c'" by simp
    then obtain c' where "perform_edit (select_operation (insert_demo_args n))
        (read_file ?w ''notes.txt'') = Edited c'" ..
    from file_edit_execute_run [OF insert_demo_args_facts(1) notes_path_ok
        edit_demo_world_facts(2,3,4) _ _ this, of example_config "[]"] that
    show ?thesis by (auto simp: edit_demo_world_facts)
  qed
  from insert_line_index_clamped [OF insert_demo_args_facts(1) sel1 small, of example_config]
    ok [OF sel1]
  have r1: "\<exists>m w'. file_edit_execute example_config (insert_demo_args (- 5)) ?w
              = Some (Success m, w') \<and>
            files w' ''notes.txt''
              = Some [CHR ''x'', CHR 0x0A, CHR ''a'', CHR 0x0A, CHR ''b'', CHR 0x0A, CHR ''c'']"
    by (auto simp: edit_demo_world_facts demo_getlines)
  from insert_line_index_clamped [OF insert_demo_args_facts(1) sel2 small, of example_config]
    ok [OF sel2]
  have r2: "\<exists>m w'. file_edit_execute example_config (insert_demo_args 99) ?w
              = Some (Success m, w') \<and>
            files w' ''notes.txt''
              = Some [CHR ''a'', CHR 0x0A, CHR ''b'', CHR 0x0A, CHR ''c'', CHR 0x0A, CHR ''x'']"
    by (auto simp: edit_demo_world_facts demo_getlines)
  from insert_line_index_clamped [OF insert_demo_args_facts(1) sel3 small, of example_config]
    ok [OF sel3]
  have r3: "\<exists>m w'. file_edit_execute example_config (insert_demo_args 2147483648) ?w
              = Some (Success m, w') \<and>
            files w' ''notes.txt''
              = Some [CHR ''x'', CHR 0x0A, CHR ''a'', CHR 0x0A, CHR ''b'', CHR 0x0A, CHR ''c'']"
    by (auto simp: edit_demo_world_facts demo_getlines)
  have c: "max 0 (min 2147483648 (int (length (getlines (read_file ?w ''notes.txt''))))) = 3"
    by (simp add: len)
  have k: "clamp_line_number (- 2147483648) (length (getlines (read_file ?w ''notes.txt''))) = 0"
    by (simp add: clamp_line_number_def)
  from sel1 sel2 sel3 j len r1 r2 r3 c k n show ?thesis by blast
qed


lemma replace_demo_args_facts:
  "json_string_at replace_demo_args ''path'' = Some ''notes.txt''"
  "select_operation replace_demo_args = REPLACE_TEXT ''xyz'' ''abc''"
  by (simp_all add: replace_demo_args_def json_string_at_def select_operation_def)

lemma demo_old_text_absent:
  "\<not> sublist ''xyz'' [CHR ''a'', CHR 0x0A, CHR ''b'', CHR 0x0A, CHR ''c'', CHR 0x0A]"
  unfolding str_find_None_iff [symmetric] by simp

theorem file_edit_old_text_not_found_witness:
  "json_string_at replace_demo_args ''path'' = Some ''notes.txt'' \<and>
   select_operation replace_demo_args = REPLACE_TEXT ''xyz'' ''abc'' \<and>
   files (edit_demo_world [CHR 0x0D]) ''notes.txt''
     = Some [CHR ''a'', CHR 0x0A, CHR ''b'', CHR 0x0A, CHR ''c'', CHR 0x0A] \<and>
   \<not> sublist ''xyz'' [CHR ''a'', CHR 0x0A, CHR ''b'', CHR 0x0A, CHR ''c'', CHR 0x0A] \<and>
   (\<exists>m w'. file_edit_execute example_config replace_demo_args (edit_demo_world [CHR 0x0D])
              = Some (Error m, w') \<and>
            files w' = files (edit_demo_world [CHR 0x0D]))"
  using file_edit_old_text_not_found [OF replace_demo_args_facts edit_demo_world_facts(6)
      demo_old_text_absent, where cfg = example_config]
    replace_demo_args_facts edit_demo_world_facts(6) demo_old_text_absent
  by blast


section \<open>The gate before side effects\<close>

lemma first_blocked_safe_iff: "fst (first_blocked bl s) \<longleftrightarrow> (\<forall>b \<in> set bl. \<not> sublist b s)"
proof (cases "find (\<lambda>b. str_contains s b) bl")
  case None
  have "fst (first_blocked bl s)" by (simp add: first_blocked_def None)
  moreover from None have "\<forall>b \<in> set bl. \<not> sublist b s"
    by (auto simp: find_None_iff str_contains_iff)
  ultimately show ?thesis by simp
next
  case (Some b)
  then have "b \<in> set bl" "sublist b s"
    by (auto simp: find_Some_iff str_contains_iff)
  with Some show ?thesis by (auto simp: first_blocked_def)
qed

lemma first_blocked_unsafe:
  assumes "\<exists>b \<in> set bl. sublist b s"
  shows "\<exists>op. first_blocked bl s = (False, op)"
  using assms first_blocked_safe_iff [of bl s] by (cases "first_blocked bl s") auto

lemma first_blocked_safe:
  assumes "\<forall>b \<in> set bl. \<not> sublist b s"
  shows "first_blocked bl s = (True, [])"
proof -
  from assms have "find (\<lambda>b. str_contains s b) bl = None"
    by (auto simp: find_None_iff str_contains_iff)
  then show ?thesis by (simp add: first_blocked_def)
qed

lemma shell_run_events:
  assumes "shell_run command t w = (r, w')"
  shows "trace w' = trace w @ [Popen (command @ '' 2>&1'')]"
  using assms unfolding shell_run_def Let_def
  by (auto split: prod.splits option.splits if_splits dest!: popen_trace)

lemma shell_confirm_and_run_events:
  assumes "shell_confirm_and_run cfg command t w = (r, w')"
  shows "(is_auto_confirm_shell cfg \<and> trace w' = trace w @ [Popen (command @ '' 2>&1'')]) \<or>
         (\<not> is_auto_confirm_shell cfg \<and>
            ((\<exists>a b c d. trace w' = trace w @ [Gate SHELL_COMMAND a b c d False]) \<and>
              \<not> is_success r \<and> files w' = files w \<and> dirs w' = dirs w \<or>
             (\<exists>a b c d. trace w' = trace w @ [Gate SHELL_COMMAND a b c d True,
                                                 Popen (command @ '' 2>&1'')])))"
proof (cases "is_auto_confirm_shell cfg")
  case True
  with assms show ?thesis by (simp add: shell_confirm_and_run_def shell_run_events)
next
  case False
  obtain c w1 where cd: "confirm_dialog SHELL_COMMAND
                 ''The AI is requesting to execute the following command:''
                 command ''This could potentially modify your system.'' [] w = (c, w1)"
    by (cases "confirm_dialog SHELL_COMMAND
                 ''The AI is requesting to execute the following command:''
                 command ''This could potentially modify your system.'' [] w") blast
  show ?thesis
  proof (cases c)
    case True
    with assms False cd have "shell_run command t w1 = (r, w')"
      by (simp add: shell_confirm_and_run_def)
    from shell_run_events [OF this] confirm_dialog_trace [OF cd] True False
    show ?thesis by auto
  next
    case cF: False
    with assms False cd have "r = Error ''Command execution denied by user''" "w' = w1"
      by (simp_all add: shell_confirm_and_run_def)
    with confirm_dialog_trace [OF cd] confirm_dialog_files [OF cd] cF False
    show ?thesis by auto
  qed
qed

lemma gates_before_effect_simps:
  "gates_before_effect [Gate t a b c d x] = 1"
  "gates_before_effect [Gate t a b c d x, Popen p] = 1"
  "gates_before_effect [Gate t a b c d x, Gate t' a' b' c' d' x'] = 2"
  "gates_before_effect [Gate t a b c d x, Gate t' a' b' c' d' x', Popen p] = 2"
  "gates_before_effect [Popen p] = 0"
  by (simp_all add: gates_before_effect_def)

lemma new_events_append: "trace w' = trace w @ evs \<Longrightarrow> new_events w w' = evs"
  by (simp add: new_events_def)

lemma shell_execute_gated:
  assumes cmd: "json_string_at args ''command'' = Some command"
    and chk: "\<not> is_shell_safety_ignored cfg"
    and hit: "\<exists>b \<in> set shell_blocked_commands. sublist b command"
    and run: "shell_execute cfg args w = (r, w')"
  shows "trace w' = trace w @ new_events w w' \<and>
         gates_before_effect (new_events w w')
           = (if is_auto_confirm_shell cfg \<or> is_denial (hd (new_events w w')) then 1 else 2) \<and>
         denial_is_harmless r w w' (new_events w w')"
proof -
  from first_blocked_unsafe [OF hit] obtain opf where
    unsafe: "shell_is_command_safe command = (False, opf)"
    by (auto simp: shell_is_command_safe_def)
  define t :: int where "t = (case json_int_at args ''timeout'' of
                    None \<Rightarrow> 5
                  | Some t \<Rightarrow> if t > 30 then 30 else if t < 1 then 1 else t)"
  let ?msg = "[sq] @ opf @ [sq] @ '' found in: '' @ command"
  obtain c w1 where cd: "confirm_dialog SHELL_COMMAND
                         ''The command contains a potentially dangerous operation:''
                         ?msg
                         ''This could potentially harm your system or expose sensitive data.''
                         ''Tip: Use --ignore-shell-safety to disable these warnings.'' w = (c, w1)"
    by (cases "confirm_dialog SHELL_COMMAND
                         ''The command contains a potentially dangerous operation:''
                         ?msg
                         ''This could potentially harm your system or expose sensitive data.''
                         ''Tip: Use --ignore-shell-safety to disable these warnings.'' w") blast
  note tr1 = confirm_dialog_trace [OF cd] and fl1 = confirm_dialog_files [OF cd]
  show ?thesis
  proof (cases c)
    case False
    with cmd chk unsafe cd run have "r =
        Error (''Command execution aborted due to security concerns with operation: '' @ opf)"
        "w' = w1"
      by (simp_all add: shell_execute_def Let_def)
    with tr1 fl1 False show ?thesis
      by (simp add: new_events_append gates_before_effect_simps denial_is_harmless_def)
  next
    case True
    with cmd chk unsafe cd run have ex: "shell_confirm_and_run cfg command t w1 = (r, w')"
      by (simp add: shell_execute_def Let_def t_def)
    from shell_confirm_and_run_events [OF ex] consider
        (auto) "is_auto_confirm_shell cfg" "trace w' = trace w1 @ [Popen (command @ '' 2>&1'')]"
      | (denied) a b c d where "\<not> is_auto_confirm_shell cfg"
          "trace w' = trace w1 @ [Gate SHELL_COMMAND a b c d False]"
          "\<not> is_success r" "files w' = files w1" "dirs w' = dirs w1"
      | (confirmed) a b c d where "\<not> is_auto_confirm_shell cfg"
          "trace w' = trace w1 @ [Gate SHELL_COMMAND a b c d True, Popen (command @ '' 2>&1'')]"
      by blast
    then show ?thesis
    proof cases
      case auto
      with tr1 True have "trace w' = trace w @ [Gate SHELL_COMMAND
                         ''The command contains a potentially dangerous operation:''
                         ?msg
                         ''This could potentially harm your system or expose sensitive data.''
                         ''Tip: Use --ignore-shell-safety to disable these warnings.'' True,
                         Popen (command @ '' 2>&1'')]" by simp
      from new_events_append [OF this] this auto(1) show ?thesis
        by (simp add: gates_before_effect_simps denial_is_harmless_def)
    next
      case denied
      with tr1 True have "trace w' = trace w @ [Gate SHELL_COMMAND
                         ''The command contains a potentially dangerous operation:''
                         ?msg
                         ''This could potentially harm your system or expose sensitive data.''
                         ''Tip: Use --ignore-shell-safety to disable these warnings.'' True,
                         Gate SHELL_COMMAND a b c d False]" by simp
      from new_events_append [OF this] this denied fl1 show ?thesis
        by (simp add: gates_before_effect_simps denial_is_harmless_def)
    next
      case confirmed
      with tr1 True have "trace w' = trace w @ [Gate SHELL_COMMAND
                         ''The command contains a potentially dangerous operation:''
                         ?msg
                         ''This could potentially harm your system or expose sensitive data.''
                         ''Tip: Use --ignore-shell-safety to disable these warnings.'' True,
                         Gate SHELL_COMMAND a b c d True, Popen (command @ '' 2>&1'')]" by simp
      from new_events_append [OF this] this confirmed(1) show ?thesis
        by (simp add: gates_before_effect_simps denial_is_harmless_def)
    qed
  qed
qed


lemma execute_command_events:
  assumes "execute_command command t w = (res, w')"
  shows "trace w' = trace w @ [Popen command]"
  using assms unfolding execute_command_def Let_def
  by (auto split: prod.splits option.splits sum.splits if_splits dest!: popen_trace)

lemma bash_run_events:
  assumes "bash_run command t w = (r, w')"
  shows "trace w' = trace w @ [Popen (command @ '' 2>&1'')]"
  using assms unfolding bash_run_def Let_def
  by (auto split: prod.splits if_splits dest!: execute_command_events)

lemma bash_confirm_and_run_events:
  assumes "bash_confirm_and_run cfg command t w = (r, w')"
  shows "(is_auto_confirm_shell cfg \<and> trace w' = trace w @ [Popen (command @ '' 2>&1'')]) \<or>
         (\<not> is_auto_confirm_shell cfg \<and>
            ((\<exists>a b c d. trace w' = trace w @ [Gate SHELL_COMMAND a b c d False]) \<and>
              \<not> is_success r \<and> files w' = files w \<and> dirs w' = dirs w \<or>
             (\<exists>a b c d. trace w' = trace w @ [Gate SHELL_COMMAND a b c d True,
                                                 Popen (command @ '' 2>&1'')])))"
proof (cases "is_auto_confirm_shell cfg")
  case True
  with assms show ?thesis by (simp add: bash_confirm_and_run_def bash_run_events)
next
  case False
  obtain c w1 where cd: "confirm_dialog SHELL_COMMAND
                 ''The AI is requesting to execute the following bash command:''
                 command
                 ''This command will be executed with your user permissions.''
                 ''Use with caution. Some commands may modify your system.'' w = (c, w1)"
    by (cases "confirm_dialog SHELL_COMMAND
                 ''The AI is requesting to execute the following bash command:''
                 command
                 ''This command will be executed with your user permissions.''
                 ''Use with caution. Some commands may modify your system.'' w") blast
  show ?thesis
  proof (cases c)
    case True
    with assms False cd have "bash_run command t w1 = (r, w')"
      by (simp add: bash_confirm_and_run_def)
    from bash_run_events [OF this] confirm_dialog_trace [OF cd] True False
    show ?thesis by auto
  next
    case cF: False
    with assms False cd have "r = Error ''Command execution denied by user''" "w' = w1"
      by (simp_all add: bash_confirm_and_run_def)
    with confirm_dialog_trace [OF cd] confirm_dialog_files [OF cd] cF False
    show ?thesis by auto
  qed
qed

lemma bash_execute_gated:
  assumes cmd: "json_string_at args ''command'' = Some command0"
    and chk: "\<not> is_shell_safety_ignored cfg"
    and hit: "\<exists>b \<in> set bash_blocked_commands. sublist b (bash_command_line args command0)"
    and run: "bash_execute cfg args w = (r, w')"
  shows "trace w' = trace w @ new_events w w' \<and>
         gates_before_effect (new_events w w')
           = (if is_auto_confirm_shell cfg \<or> is_denial (hd (new_events w w')) then 1 else 2) \<and>
         denial_is_harmless r w w' (new_events w w')"
proof -
  define command where "command = bash_command_line args command0"
  from first_blocked_unsafe [OF hit] obtain opf where
    unsafe: "bash_is_command_safe command = (False, opf)"
    by (auto simp: bash_is_command_safe_def command_def)
  define t :: int where "t = (case json_int_at args ''timeout'' of
                    None \<Rightarrow> 10
                  | Some t \<Rightarrow> if t > 60 then 60 else if t < 1 then 1 else t)"
  let ?msg = "[sq] @ opf @ [sq] @ '' found in: '' @ command"
  let ?G = "Gate SHELL_COMMAND
                         ''The bash command contains a potentially dangerous operation:''
                         ?msg
                         ''This operation could potentially harm your system or delete data.''
                         ''Tip: Use --ignore-shell-safety to disable these warnings.''"
  obtain c w1 where cd: "confirm_dialog SHELL_COMMAND
                         ''The bash command contains a potentially dangerous operation:''
                         ?msg
                         ''This operation could potentially harm your system or delete data.''
                         ''Tip: Use --ignore-shell-safety to disable these warnings.'' w = (c, w1)"
    by (cases "confirm_dialog SHELL_COMMAND
                         ''The bash command contains a potentially dangerous operation:''
                         ?msg
                         ''This operation could potentially harm your system or delete data.''
                         ''Tip: Use --ignore-shell-safety to disable these warnings.'' w") blast
  note tr1 = confirm_dialog_trace [OF cd] and fl1 = confirm_dialog_files [OF cd]
  show ?thesis
  proof (cases c)
    case False
    with cmd chk unsafe cd run have "r =
        Error (''Command execution aborted due to security concerns with operation: '' @ opf)"
        "w' = w1"
      by (simp_all add: bash_execute_def Let_def command_def)
    with tr1 fl1 False show ?thesis
      by (simp add: new_events_append gates_before_effect_simps denial_is_harmless_def)
  next
    case True
    with cmd chk unsafe cd run have ex: "bash_confirm_and_run cfg command t w1 = (r, w')"
      by (simp add: bash_execute_def Let_def t_def command_def)
    from bash_confirm_and_run_events [OF ex] consider
        (auto) "is_auto_confirm_shell cfg" "trace w' = trace w1 @ [Popen (command @ '' 2>&1'')]"
      | (denied) a b c d where "\<not> is_auto_confirm_shell cfg"
          "trace w' = trace w1 @ [Gate SHELL_COMMAND a b c d False]"
          "\<not> is_success r" "files w' = files w1" "dirs w' = dirs w1"
      | (confirmed) a b c d where "\<not> is_auto_confirm_shell cfg"
          "trace w' = trace w1 @ [Gate SHELL_COMMAND a b c d True, Popen (command @ '' 2>&1'')]"
      by blast
    then show ?thesis
    proof cases
      case auto
      with tr1 True have "trace w' = trace w @ [?G True, Popen (command @ '' 2>&1'')]" by simp
      from new_events_append [OF this] this auto(1) show ?thesis
        by (simp add: gates_before_effect_simps denial_is_harmless_def)
    next
      case denied
      with tr1 True have "trace w' = trace w @ [?G True, Gate SHELL_COMMAND a b c d False]"
        by simp
      from new_events_append [OF this] this denied fl1 show ?thesis
        by (simp add: gates_before_effect_simps denial_is_harmless_def)
    next
      case confirmed
      with tr1 True have "trace w' = trace w @ [?G True, Gate SHELL_COMMAND a b c d True,
                                                Popen (command @ '' 2>&1'')]" by simp
      from new_events_append [OF this] this confirmed(1) show ?thesis
        by (simp add: gates_before_effect_simps denial_is_harmless_def)
    qed
  qed
qed

lemma sublist_filter:
  assumes "sublist b e" "\<forall>c \<in> set b. P c"
  shows "sublist b (filter P e)"
proof -
  from assms(1) obtain ps ss where "e = ps @ b @ ss" by (auto simp: sublist_def)
  moreover from assms(2) have "filter P b = b" by (simp add: filter_id_conv)
  ultimately show ?thesis by (auto simp: sublist_def)
qed

lemma calc_blocked_patterns_allowed:
  "\<forall>b \<in> set calc_blocked_patterns. \<forall>c \<in> set b. c \<in> set allowed_chars"
  by (simp add: calc_blocked_patterns_def allowed_chars_def)

text \<open>
  The blocked patterns are made of allowed characters: an expression that contains one
  still contains it after the characters that are not allowed have been removed.
\<close>

lemma calc_blocked_raw_sanitized:
  assumes "\<exists>b \<in> set calc_blocked_patterns. sublist b expression"
  shows "\<exists>b \<in> set calc_blocked_patterns.
           sublist b (filter (\<lambda>c. c \<in> set allowed_chars) expression)"
  using assms calc_blocked_patterns_allowed by (meson sublist_filter)

lemma calculator_execute_gated:
  assumes expr: "json_string_at args ''expression'' = Some expression"
    and chk: "\<not> is_calc_safety_ignored cfg"
    and hit: "\<exists>b \<in> set calc_blocked_patterns.
                sublist b (filter (\<lambda>c. c \<in> set allowed_chars) expression)"
    and run: "calculator_execute cfg args w = (r, w')"
  shows "trace w' = trace w @ new_events w w' \<and>
         gates_before_effect (new_events w w') = 1 \<and>
         denial_is_harmless r w w' (new_events w w')"
proof -
  let ?s = "filter (\<lambda>c. c \<in> set allowed_chars) expression"
  from first_blocked_unsafe [OF hit] obtain pf where
    unsafe: "is_expression_safe ?s = (False, pf)"
    by (auto simp: is_expression_safe_def)
  let ?G = "Gate CALCULATION
                         ''The expression contains a potentially unsafe pattern:''
                         ([sq] @ pf @ [sq] @ '' found in: '' @ expression)
                         ''This might be a false positive, but could be an attempt to execute code.''
                         ''Tip: Use --ignore-calc-safety to disable these warnings.''"
  obtain c w1 where cd: "confirm_dialog CALCULATION
                         ''The expression contains a potentially unsafe pattern:''
                         ([sq] @ pf @ [sq] @ '' found in: '' @ expression)
                         ''This might be a false positive, but could be an attempt to execute code.''
                         ''Tip: Use --ignore-calc-safety to disable these warnings.'' w = (c, w1)"
    by (cases "confirm_dialog CALCULATION
                         ''The expression contains a potentially unsafe pattern:''
                         ([sq] @ pf @ [sq] @ '' found in: '' @ expression)
                         ''This might be a false positive, but could be an attempt to execute code.''
                         ''Tip: Use --ignore-calc-safety to disable these warnings.'' w") blast
  note tr1 = confirm_dialog_trace [OF cd] and fl1 = confirm_dialog_files [OF cd]
  show ?thesis
  proof (cases c)
    case False
    with expr chk unsafe cd run have
      "r = Error (''Calculation aborted due to security concerns with pattern: '' @ pf)" "w' = w1"
      by (simp_all add: calculator_execute_def Let_def)
    with tr1 fl1 False show ?thesis
      by (simp add: new_events_append gates_before_effect_simps denial_is_harmless_def)
  next
    case True
    with expr chk unsafe cd run have "calc_evaluate ?s w1 = (r, w')"
      by (simp add: calculator_execute_def Let_def)
    from calc_evaluate_trace [OF this] tr1 True
    have "trace w' = trace w @ [?G True,
            Popen (''echo '' @ [sq] @ take 500 ?s @ [sq] @ '' | BC_LINE_LENGTH=0 bc -l'')]"
      by simp
    from new_events_append [OF this] this show ?thesis
      by (simp add: gates_before_effect_simps denial_is_harmless_def)
  qed
qed


lemma shell_demo_args_facts:
  "json_string_at shell_demo_args ''command'' = Some ''rm notes.txt''"
  "json_int_at shell_demo_args ''timeout'' = None"
  by (simp_all add: shell_demo_args_def json_string_at_def json_int_at_def)

lemma shell_demo_blocked: "shell_is_command_safe ''rm notes.txt'' = (False, ''rm'')"
  by (simp add: shell_is_command_safe_def first_blocked_def shell_blocked_commands_def
      str_contains_def)

lemma shell_demo_world_sel:
  "keys (shell_demo_world ks) = ks" "trace (shell_demo_world ks) = []"
  "files (shell_demo_world ks) = Map.empty" "dirs (shell_demo_world ks) = {}"
  "os_popen (shell_demo_world ks) cmd fs' = (Some \<lparr>reads = [], exit_code = 0\<rparr>, fs')"
  by (simp_all add: shell_demo_world_def example_world_sel)

lemma shell_demo_run_twice_confirmed:
  "fst (shell_execute example_config shell_demo_args (shell_demo_world [CHR 0x0D, CHR 0x0D]))
     = Success ''Command executed successfully (no output)'' \<and>
   trace (snd (shell_execute example_config shell_demo_args (shell_demo_world [CHR 0x0D, CHR 0x0D])))
     = [Gate SHELL_COMMAND ''The command contains a potentially dangerous operation:''
          (sq # ''rm'' @ sq # '' found in: rm notes.txt'')
          ''This could potentially harm your system or expose sensitive data.''
          ''Tip: Use --ignore-shell-safety to disable these warnings.'' True,
        Gate SHELL_COMMAND ''The AI is requesting to execute the following command:''
          ''rm notes.txt'' ''This could potentially modify your system.'' [] True,
        Popen ''rm notes.txt 2>&1'']"
  unfolding shell_execute_def shell_demo_args_facts option.case shell_confirm_and_run_def
    shell_run_def
  by (simp add: example_config_sel shell_demo_blocked confirm_dialog_eval popen_def log_event_def
      shell_demo_world_sel)

lemma shell_demo_run_denied_second:
  "fst (shell_execute example_config shell_demo_args (shell_demo_world [CHR 0x0D, CHR 0x1B]))
     = Error ''Command execution denied by user'' \<and>
   trace (snd (shell_execute example_config shell_demo_args (shell_demo_world [CHR 0x0D, CHR 0x1B])))
     = [Gate SHELL_COMMAND ''The command contains a potentially dangerous operation:''
          (sq # ''rm'' @ sq # '' found in: rm notes.txt'')
          ''This could potentially harm your system or expose sensitive data.''
          ''Tip: Use --ignore-shell-safety to disable these warnings.'' True,
        Gate SHELL_COMMAND ''The AI is requesting to execute the following command:''
          ''rm notes.txt'' ''This could potentially modify your system.'' [] False]"
  unfolding shell_execute_def shell_demo_args_facts option.case shell_confirm_and_run_def
    shell_run_def
  by (simp add: example_config_sel shell_demo_blocked confirm_dialog_eval popen_def log_event_def
      shell_demo_world_sel)


lemma bash_demo_args_facts:
  "json_string_at bash_demo_args ''command'' = Some ''rm -rf build''"
  "json_int_at bash_demo_args ''timeout'' = None"
  "bash_command_line bash_demo_args ''rm -rf build''
     = ''cd '' @ [CHR 0x22] @ ''/tmp'' @ [CHR 0x22] @ '' && rm -rf build''"
  by (simp_all add: bash_demo_args_def json_string_at_def json_int_at_def bash_command_line_def
      dq_def)

lemma bash_demo_blocked:
  "bash_is_command_safe (''cd '' @ [CHR 0x22] @ ''/tmp'' @ [CHR 0x22] @ '' && rm -rf build'')
     = (False, ''rm -rf'')"
  by (simp add: bash_is_command_safe_def first_blocked_def bash_blocked_commands_def
      str_contains_def)

lemma bash_demo_run_denied:
  "fst (bash_execute example_config bash_demo_args (shell_demo_world [CHR 0x1B]))
     = Error ''Command execution aborted due to security concerns with operation: rm -rf'' \<and>
   trace (snd (bash_execute example_config bash_demo_args (shell_demo_world [CHR 0x1B])))
     = [Gate SHELL_COMMAND ''The bash command contains a potentially dangerous operation:''
          (sq # ''rm -rf'' @ sq # '' found in: cd '' @ [CHR 0x22] @ ''/tmp'' @ [CHR 0x22]
             @ '' && rm -rf build'')
          ''This operation could potentially harm your system or delete data.''
          ''Tip: Use --ignore-shell-safety to disable these warnings.'' False]"
  unfolding bash_execute_def bash_demo_args_facts option.case
  by (simp add: example_config_sel bash_demo_blocked [simplified] confirm_dialog_eval
      log_event_def shell_demo_world_sel)

lemma calc_demo_run_denied:
  "fst (calculator_execute example_config calc_demo_args (shell_demo_world [CHR 0x1B]))
     = Error ''Calculation aborted due to security concerns with pattern: rm'' \<and>
   trace (snd (calculator_execute example_config calc_demo_args (shell_demo_world [CHR 0x1B])))
     = [Gate CALCULATION ''The expression contains a potentially unsafe pattern:''
            (sq # ''rm'' @ sq # '' found in: 2+2; $rm'')
            ''This might be a false positive, but could be an attempt to execute code.''
            ''Tip: Use --ignore-calc-safety to disable these warnings.'' False]"
proof -
  have a: "json_string_at calc_demo_args ''expression'' = Some ''2+2; $rm''"
    by (simp add: json_string_at_def calc_demo_args_def)
  show ?thesis
    unfolding calculator_execute_def a option.case calc_demo_sanitized
    by (simp add: example_config_sel calc_demo_blocked confirm_dialog_eval log_event_def
        shell_demo_world_sel)
qed

text \<open>
  Claim C1, amended. When the text the tool tests (for the Calculator the expression
  without the characters that are not allowed, for Shell the command, for Bash the
  command line) contains a blocked pattern and the safety check is not ignored, the gate
  is invoked before any side effect: exactly once by the Calculator; by Shell and Bash
  exactly once when auto-confirm-shell is set or the first dialog is denied, and exactly
  twice otherwise (the blocklist dialog, then the dialog every command gets without
  auto-confirm). When a dialog is denied the tool returns an error, no side effect is
  among its events, and the files and directories are unchanged.
\<close>

theorem blocklisted_execution_is_gated:
  "(json_string_at args ''expression'' = Some expression \<and> \<not> is_calc_safety_ignored cfg \<and>
    (\<exists>b \<in> set calc_blocked_patterns.
       sublist b (filter (\<lambda>c. c \<in> set allowed_chars) expression)) \<and>
    calculator_execute cfg args w = (r, w')
    \<longrightarrow> trace w' = trace w @ new_events w w' \<and>
        gates_before_effect (new_events w w') = 1 \<and>
        denial_is_harmless r w w' (new_events w w')) \<and>
   (json_string_at args ''command'' = Some command \<and> \<not> is_shell_safety_ignored cfg \<and>
    (\<exists>b \<in> set shell_blocked_commands. sublist b command) \<and>
    shell_execute cfg args w = (r, w')
    \<longrightarrow> trace w' = trace w @ new_events w w' \<and>
        gates_before_effect (new_events w w')
          = (if is_auto_confirm_shell cfg \<or> is_denial (hd (new_events w w')) then 1 else 2) \<and>
        denial_is_harmless r w w' (new_events w w')) \<and>
   (json_string_at args ''command'' = Some command \<and> \<not> is_shell_safety_ignored cfg \<and>
    (\<exists>b \<in> set bash_blocked_commands. sublist b (bash_command_line args command)) \<and>
    bash_execute cfg args w = (r, w')
    \<longrightarrow> trace w' = trace w @ new_events w w' \<and>
        gates_before_effect (new_events w w')
          = (if is_auto_confirm_shell cfg \<or> is_denial (hd (new_events w w')) then 1 else 2) \<and>
        denial_is_harmless r w w' (new_events w w'))"
  using calculator_execute_gated [of args expression cfg w r w']
    shell_execute_gated [of args command cfg w r w']
    bash_execute_gated [of args command cfg w r w']
  by blast

text \<open>
  Claim C1 as stated asks for exactly one invocation of the gate before any side
  effect. The shell tool, without auto-confirm, on \<^verbatim>\<open>rm notes.txt\<close> with both dialogs
  confirmed, invokes it twice before \<^verbatim>\<open>popen\<close>.
\<close>

theorem gate_invoked_twice_counterexample:
  "json_string_at shell_demo_args ''command'' = Some ''rm notes.txt'' \<and>
   \<not> is_shell_safety_ignored example_config \<and>
   ''rm'' \<in> set shell_blocked_commands \<and> sublist ''rm'' ''rm notes.txt'' \<and>
   fst (shell_execute example_config shell_demo_args (shell_demo_world [CHR 0x0D, CHR 0x0D]))
     = Success ''Command executed successfully (no output)'' \<and>
   gates_before_effect
     (new_events (shell_demo_world [CHR 0x0D, CHR 0x0D])
        (snd (shell_execute example_config shell_demo_args (shell_demo_world [CHR 0x0D, CHR 0x0D]))))
     = 2 \<and>
   gates_before_effect
     (new_events (shell_demo_world [CHR 0x0D, CHR 0x0D])
        (snd (shell_execute example_config shell_demo_args (shell_demo_world [CHR 0x0D, CHR 0x0D]))))
     \<noteq> 1"
proof -
  have "sublist ''rm'' (''rm'' @ '' notes.txt'')" by (rule sublist_append_rightI)
  then have "sublist ''rm'' ''rm notes.txt''" by simp
  moreover have "''rm'' \<in> set shell_blocked_commands" by (simp add: shell_blocked_commands_def)
  ultimately show ?thesis
    using shell_demo_run_twice_confirmed
    by (simp add: new_events_def shell_demo_world_sel shell_demo_args_facts example_config_sel
        gates_before_effect_simps)
qed


lemma demo_hits:
  "\<exists>b \<in> set calc_blocked_patterns.
     sublist b (filter (\<lambda>c. c \<in> set allowed_chars) ''2+2; $rm'')"
  "\<exists>b \<in> set shell_blocked_commands. sublist b ''rm notes.txt''"
  "\<exists>b \<in> set bash_blocked_commands. sublist b (bash_command_line bash_demo_args ''rm -rf build'')"
proof -
  have "str_contains ''2+2 rm'' ''rm''" by (simp add: str_contains_def)
  then show "\<exists>b \<in> set calc_blocked_patterns.
               sublist b (filter (\<lambda>c. c \<in> set allowed_chars) ''2+2; $rm'')"
    unfolding calc_demo_sanitized by (auto simp: str_contains_iff calc_blocked_patterns_def)
  have "str_contains ''rm notes.txt'' ''rm''" by (simp add: str_contains_def)
  then show "\<exists>b \<in> set shell_blocked_commands. sublist b ''rm notes.txt''"
    by (auto simp: str_contains_iff shell_blocked_commands_def)
  have "str_contains (bash_command_line bash_demo_args ''rm -rf build'') ''rm -rf''"
    by (simp add: bash_demo_args_facts str_contains_def)
  then show "\<exists>b \<in> set bash_blocked_commands.
               sublist b (bash_command_line bash_demo_args ''rm -rf build'')"
    by (auto simp: str_contains_iff bash_blocked_commands_def)
qed

text \<open>
  Three denied executions: the calculator at its only dialog, the shell tool at its
  second, the bash tool at its first.
\<close>

theorem blocklisted_execution_is_gated_witness:
  "(\<exists>r w'. calculator_execute example_config calc_demo_args (shell_demo_world [CHR 0x1B]) = (r, w') \<and>
      gates_before_effect (new_events (shell_demo_world [CHR 0x1B]) w') = 1 \<and>
      \<not> is_success r \<and> files w' = files (shell_demo_world [CHR 0x1B])) \<and>
   (\<exists>r w'. shell_execute example_config shell_demo_args (shell_demo_world [CHR 0x0D, CHR 0x1B])
              = (r, w') \<and>
      gates_before_effect (new_events (shell_demo_world [CHR 0x0D, CHR 0x1B]) w') = 2 \<and>
      \<not> is_success r \<and> files w' = files (shell_demo_world [CHR 0x0D, CHR 0x1B])) \<and>
   (\<exists>r w'. bash_execute example_config bash_demo_args (shell_demo_world [CHR 0x1B]) = (r, w') \<and>
      gates_before_effect (new_events (shell_demo_world [CHR 0x1B]) w') = 1 \<and>
      \<not> is_success r \<and> files w' = files (shell_demo_world [CHR 0x1B]))"
proof (intro conjI)
  let ?w = "shell_demo_world [CHR 0x1B]"
  let ?x = "calculator_execute example_config calc_demo_args ?w"
  have a: "json_string_at calc_demo_args ''expression'' = Some ''2+2; $rm''"
    by (simp add: json_string_at_def calc_demo_args_def)
  from blocklisted_execution_is_gated [of calc_demo_args "''2+2; $rm''" example_config
      ?w "fst ?x" "snd ?x"] a example_config_sel(1) demo_hits(1)
  have g: "gates_before_effect (new_events ?w (snd ?x)) = 1"
    and h: "denial_is_harmless (fst ?x) ?w (snd ?x) (new_events ?w (snd ?x))"
    by simp_all
  have "new_events ?w (snd ?x) = trace (snd ?x)"
    by (simp add: new_events_def shell_demo_world_sel)
  with calc_demo_run_denied have "\<exists>e \<in> set (new_events ?w (snd ?x)). is_denial e" by simp
  with h have "\<not> is_success (fst ?x)" "files (snd ?x) = files ?w"
    by (simp_all add: denial_is_harmless_def)
  with g show "\<exists>r w'. ?x = (r, w') \<and> gates_before_effect (new_events ?w w') = 1 \<and>
      \<not> is_success r \<and> files w' = files ?w"
    by (intro exI [of _ "fst ?x"] exI [of _ "snd ?x"]) simp
next
  let ?w = "shell_demo_world [CHR 0x0D, CHR 0x1B]"
  let ?x = "shell_execute example_config shell_demo_args ?w"
  have ne: "new_events ?w (snd ?x) = trace (snd ?x)"
    by (simp add: new_events_def shell_demo_world_sel)
  with shell_demo_run_denied_second
  have nd: "\<not> is_denial (hd (new_events ?w (snd ?x)))"
    and d: "\<exists>e \<in> set (new_events ?w (snd ?x)). is_denial e"
    by simp_all
  from blocklisted_execution_is_gated [of shell_demo_args _ example_config
      ?w "fst ?x" "snd ?x" "''rm notes.txt''"] shell_demo_args_facts(1) example_config_sel(2,3)
    demo_hits(2) nd
  have g: "gates_before_effect (new_events ?w (snd ?x)) = 2"
    and h: "denial_is_harmless (fst ?x) ?w (snd ?x) (new_events ?w (snd ?x))"
    by simp_all
  from h d have "\<not> is_success (fst ?x)" "files (snd ?x) = files ?w"
    by (simp_all add: denial_is_harmless_def)
  with g show "\<exists>r w'. ?x = (r, w') \<and> gates_before_effect (new_events ?w w') = 2 \<and>
      \<not> is_success r \<and> files w' = files ?w"
    by (intro exI [of _ "fst ?x"] exI [of _ "snd ?x"]) simp
next
  let ?w = "shell_demo_world [CHR 0x1B]"
  let ?x = "bash_execute example_config bash_demo_args ?w"
  have ne: "new_events ?w (snd ?x) = trace (snd ?x)"
    by (simp add: new_events_def shell_demo_world_sel)
  with bash_demo_run_denied
  have dh: "is_denial (hd (new_events ?w (snd ?x)))"
    and d: "\<exists>e \<in> set (new_events ?w (snd ?x)). is_denial e"
    by simp_all
  from blocklisted_execution_is_gated [of bash_demo_args _ example_config
      ?w "fst ?x" "snd ?x" "''rm -rf build''"] bash_demo_args_facts(1) example_config_sel(2,3)
    demo_hits(3) dh
  have g: "gates_before_effect (new_events ?w (snd ?x)) = 1"
    and h: "denial_is_harmless (fst ?x) ?w (snd ?x) (new_events ?w (snd ?x))"
    by simp_all
  from h d have "\<not> is_success (fst ?x)" "files (snd ?x) = files ?w"
    by (simp_all add: denial_is_harmless_def)
  with g show "\<exists>r w'. ?x = (r, w') \<and> gates_before_effect (new_events ?w w') = 1 \<and>
      \<not> is_success r \<and> files w' = files ?w"
    by (intro exI [of _ "fst ?x"] exI [of _ "snd ?x"]) simp
qed

section \<open>Auto-confirm\<close>

lemma shell_execute_auto_safe:
  assumes "is_auto_confirm_shell cfg" "json_string_at args ''command'' = Some command"
    and "\<forall>b \<in> set shell_blocked_commands. \<not> sublist b command"
    and "shell_execute cfg args w = (r, w')"
  shows "trace w' = trace w @ [Popen (command @ '' 2>&1'')]"
proof -
  define t :: int where "t = (case json_int_at args ''timeout'' of
                    None \<Rightarrow> 5
                  | Some t \<Rightarrow> if t > 30 then 30 else if t < 1 then 1 else t)"
  from first_blocked_safe [OF assms(3)] have "shell_is_command_safe command = (True, [])"
    by (simp add: shell_is_command_safe_def)
  with assms(1,2) have "shell_execute cfg args w = shell_run command t w"
    by (simp add: shell_execute_def shell_confirm_and_run_def Let_def t_def)
  with assms(4) show ?thesis by (simp add: shell_run_events)
qed

lemma bash_execute_auto_safe:
  assumes "is_auto_confirm_shell cfg" "json_string_at args ''command'' = Some command"
    and "\<forall>b \<in> set bash_blocked_commands. \<not> sublist b (bash_command_line args command)"
    and "bash_execute cfg args w = (r, w')"
  shows "trace w' = trace w @ [Popen (bash_command_line args command @ '' 2>&1'')]"
proof -
  define t :: int where "t = (case json_int_at args ''timeout'' of
                    None \<Rightarrow> 10
                  | Some t \<Rightarrow> if t > 60 then 60 else if t < 1 then 1 else t)"
  from first_blocked_safe [OF assms(3)]
  have "bash_is_command_safe (bash_command_line args command) = (True, [])"
    by (simp add: bash_is_command_safe_def)
  with assms(1,2) have "bash_execute cfg args w = bash_run (bash_command_line args command) t w"
    by (simp add: bash_execute_def bash_confirm_and_run_def Let_def t_def)
  with assms(4) show ?thesis by (simp add: bash_run_events)
qed

lemma create_parent_events:
  assumes "create_parent p w = Inr w1"
  shows "\<exists>evs. trace w1 = trace w @ evs \<and> filter is_gate evs = []"
proof -
  let ?d = "parent_path p"
  from assms have "w1 = w \<or> w1 = (log_event (CreateDirs ?d) w)\<lparr>dirs := insert ?d (dirs w)\<rparr>"
    by (auto simp: create_parent_def Let_def split: if_splits option.splits)
  then have "trace w1 = trace w @ [] \<or> trace w1 = trace w @ [CreateDirs ?d]"
    by (auto simp: log_event_def)
  then show ?thesis by fastforce
qed

lemma file_write_perform_events:
  assumes "file_write_perform p c w = (r, w')"
  shows "\<exists>evs. trace w' = trace w @ evs \<and> filter is_gate evs = []"
proof (cases "create_parent p w")
  case (Inl what)
  with assms have "w' = w" by (simp add: file_write_perform_def)
  then show ?thesis by (intro exI [of _ "[]"]) simp
next
  case (Inr w1)
  from create_parent_events [OF Inr] obtain e1 where
    t1: "trace w1 = trace w @ e1" and g1: "filter is_gate e1 = []"
    by blast
  show ?thesis
  proof (cases "os_can_write w1 p")
    case False
    with Inr assms have "w' = w1" by (simp add: file_write_perform_def)
    with t1 g1 show ?thesis by blast
  next
    case True
    with Inr assms have "w' = write_file p c w1" by (simp add: file_write_perform_def)
    with t1 have "trace w' = trace w @ (e1 @ [FileWrite p c])" by (simp add: trace_write_file)
    moreover from g1 have "filter is_gate (e1 @ [FileWrite p c]) = []" by simp
    ultimately show ?thesis by blast
  qed
qed

lemma file_write_execute_auto:
  assumes auto: "is_auto_confirm_file_ops cfg" and run: "file_write_execute cfg args w = (r, w')"
  shows "\<exists>evs. trace w' = trace w @ evs \<and> filter is_gate evs = []"
proof -
  have same: ?thesis if "w' = w"
    using that by (intro exI [of _ "[]"]) simp
  show ?thesis
  proof (cases "json_string_at args ''path''")
    case None
    with run have "w' = w" by (simp add: file_write_execute_def)
    then show ?thesis by (rule same)
  next
    case p: (Some p)
    show ?thesis
    proof (cases "json_string_at args ''content''")
      case None
      with run p have "w' = w" by (simp add: file_write_execute_def)
      then show ?thesis by (rule same)
    next
      case c: (Some c)
      show ?thesis
      proof (cases "str_contains p ''..''")
        case True
        with run p c have "w' = w" by (simp add: file_write_execute_def)
        then show ?thesis by (rule same)
      next
        case False
        with run p c auto have "file_write_perform p c w = (r, w')"
          by (simp add: file_write_execute_def)
        then show ?thesis by (rule file_write_perform_events)
      qed
    qed
  qed
qed

lemma file_edit_apply_events:
  assumes "file_edit_apply operation p c w = Some (r, w')"
  shows "\<exists>evs. trace w' = trace w @ evs \<and> filter is_gate evs = []"
proof -
  from assms have "w' = w \<or> (\<exists>c'. w' = write_file p c' w)"
    by (auto simp: file_edit_apply_def split: edit_outcome.splits if_splits)
  then show ?thesis
  proof
    assume "w' = w"
    then show ?thesis by (intro exI [of _ "[]"]) simp
  next
    assume "\<exists>c'. w' = write_file p c' w"
    then obtain c' where "w' = write_file p c' w" ..
    then show ?thesis by (intro exI [of _ "[FileWrite p c']"]) (simp add: trace_write_file)
  qed
qed

lemma file_edit_execute_auto:
  assumes auto: "is_auto_confirm_file_ops cfg" and run: "file_edit_execute cfg args w = Some (r, w')"
  shows "\<exists>evs. trace w' = trace w @ evs \<and> filter is_gate evs = []"
proof (cases rule: file_edit_execute_cases [of cfg args w])
  case (early m)
  with run have "w' = w" by simp
  then show ?thesis by (intro exI [of _ "[]"]) simp
next
  case (denied m w1)
  with auto show ?thesis by simp
next
  case (direct p)
  with run show ?thesis by (auto dest: file_edit_apply_events)
next
  case (confirmed p w1)
  with auto show ?thesis by simp
qed

lemma no_gate_new_events:
  assumes "\<exists>evs. trace w' = trace w @ evs \<and> filter is_gate evs = []"
  shows "trace w' = trace w @ new_events w w' \<and> filter is_gate (new_events w w') = []"
  using assms by (auto simp: new_events_def)

text \<open>
  Claim C8. With auto-confirm-shell set, a Shell or Bash execution whose command line
  contains no blocked pattern adds no dialog to the trace; with auto-confirm-file-ops
  set, no FileWrite and no FileEdit execution does.
\<close>

theorem auto_confirm_never_asks:
  "(is_auto_confirm_shell cfg \<and> json_string_at args ''command'' = Some command \<and>
    (\<forall>b \<in> set shell_blocked_commands. \<not> sublist b command) \<and>
    shell_execute cfg args w = (r, w')
    \<longrightarrow> trace w' = trace w @ new_events w w' \<and> filter is_gate (new_events w w') = []) \<and>
   (is_auto_confirm_shell cfg \<and> json_string_at args ''command'' = Some command \<and>
    (\<forall>b \<in> set bash_blocked_commands. \<not> sublist b (bash_command_line args command)) \<and>
    bash_execute cfg args w = (r, w')
    \<longrightarrow> trace w' = trace w @ new_events w w' \<and> filter is_gate (new_events w w') = []) \<and>
   (is_auto_confirm_file_ops cfg \<and> file_write_execute cfg args w = (r, w')
    \<longrightarrow> trace w' = trace w @ new_events w w' \<and> filter is_gate (new_events w w') = []) \<and>
   (is_auto_confirm_file_ops cfg \<and> file_edit_execute cfg args w = Some (r, w')
    \<longrightarrow> trace w' = trace w @ new_events w w' \<and> filter is_gate (new_events w w') = [])"
proof (intro conjI impI; elim conjE)
  assume "is_auto_confirm_shell cfg" "json_string_at args ''command'' = Some command"
    "\<forall>b \<in> set shell_blocked_commands. \<not> sublist b command" "shell_execute cfg args w = (r, w')"
  from shell_execute_auto_safe [OF this]
  have "\<exists>evs. trace w' = trace w @ evs \<and> filter is_gate evs = []" by simp
  from no_gate_new_events [OF this]
  show "trace w' = trace w @ new_events w w'" "filter is_gate (new_events w w') = []" by simp_all
next
  assume "is_auto_confirm_shell cfg" "json_string_at args ''command'' = Some command"
    "\<forall>b \<in> set bash_blocked_commands. \<not> sublist b (bash_command_line args command)"
    "bash_execute cfg args w = (r, w')"
  from bash_execute_auto_safe [OF this]
  have "\<exists>evs. trace w' = trace w @ evs \<and> filter is_gate evs = []" by simp
  from no_gate_new_events [OF this]
  show "trace w' = trace w @ new_events w w'" "filter is_gate (new_events w w') = []" by simp_all
next
  assume "is_auto_confirm_file_ops cfg" "file_write_execute cfg args w = (r, w')"
  from no_gate_new_events [OF file_write_execute_auto [OF this]]
  show "trace w' = trace w @ new_events w w'" "filter is_gate (new_events w w') = []" by simp_all
next
  assume "is_auto_confirm_file_ops cfg" "file_edit_execute cfg args w = Some (r, w')"
  from no_gate_new_events [OF file_edit_execute_auto [OF this]]
  show "trace w' = trace w @ new_events w w'" "filter is_gate (new_events w w') = []" by simp_all
qed



lemma auto_config_sel:
  "\<not> is_calc_safety_ignored auto_config" "\<not> is_shell_safety_ignored auto_config"
  "is_auto_confirm_shell auto_config" "is_auto_confirm_file_ops auto_config"
  by (simp_all add: auto_config_def)

lemma ls_demo_args_facts:
  "json_string_at ls_demo_args ''command'' = Some ''ls''"
  "json_int_at ls_demo_args ''timeout'' = None"
  "bash_command_line ls_demo_args ''ls'' = ''cd '' @ [CHR 0x22] @ ''/tmp'' @ [CHR 0x22] @ '' && ls''"
  by (simp_all add: ls_demo_args_def json_string_at_def json_int_at_def bash_command_line_def
      dq_def)

lemma ls_demo_safe:
  "shell_is_command_safe ''ls'' = (True, [])"
  "bash_is_command_safe (''cd '' @ [CHR 0x22] @ ''/tmp'' @ [CHR 0x22] @ '' && ls'') = (True, [])"
  by (simp_all add: shell_is_command_safe_def bash_is_command_safe_def first_blocked_def
      shell_blocked_commands_def bash_blocked_commands_def str_contains_def)

lemma ls_demo_no_hit:
  "\<forall>b \<in> set shell_blocked_commands. \<not> sublist b ''ls''"
  "\<forall>b \<in> set bash_blocked_commands. \<not> sublist b (bash_command_line ls_demo_args ''ls'')"
  using first_blocked_safe_iff [of shell_blocked_commands "''ls''"]
    first_blocked_safe_iff [of bash_blocked_commands "bash_command_line ls_demo_args ''ls''"]
    ls_demo_safe
  by (simp_all add: shell_is_command_safe_def bash_is_command_safe_def ls_demo_args_facts)

lemma ls_demo_shell_run:
  "trace (snd (shell_execute auto_config ls_demo_args (shell_demo_world []))) = [Popen ''ls 2>&1'']"
  unfolding shell_execute_def ls_demo_args_facts option.case shell_confirm_and_run_def
    shell_run_def
  by (simp add: auto_config_sel ls_demo_safe popen_def log_event_def shell_demo_world_sel)

lemma ls_demo_bash_run:
  "trace (snd (bash_execute auto_config ls_demo_args (shell_demo_world [])))
     = [Popen (''cd '' @ [CHR 0x22] @ ''/tmp'' @ [CHR 0x22] @ '' && ls 2>&1'')]"
  unfolding bash_execute_def ls_demo_args_facts option.case bash_confirm_and_run_def
    bash_run_def execute_command_def
  by (simp add: auto_config_sel ls_demo_safe [simplified] popen_def log_event_def
      shell_demo_world_sel)

lemma edit_demo_world_trace: "trace (edit_demo_world ks) = []"
  by (simp add: edit_demo_world_def example_world_sel)

lemma write_demo_run:
  "trace (snd (file_write_execute auto_config write_demo_args (edit_demo_world [])))
     = [FileWrite ''notes.txt'' ''hi'']"
proof -
  have a: "json_string_at write_demo_args ''path'' = Some ''notes.txt''"
    "json_string_at write_demo_args ''content'' = Some ''hi''"
    by (simp_all add: write_demo_args_def json_string_at_def)
  have pp: "create_parent ''notes.txt'' (edit_demo_world []) = Inr (edit_demo_world [])"
    by (simp add: create_parent_def parent_path_def)
  show ?thesis
    unfolding file_write_execute_def a option.case file_write_perform_def pp sum.case
    by (simp add: auto_config_sel notes_path_ok edit_demo_world_facts trace_write_file
        edit_demo_world_trace)
qed

lemma append_demo_run:
  "\<exists>r w'. file_edit_execute auto_config append_demo_args (edit_demo_world []) = Some (r, w') \<and>
     trace w' = [FileWrite ''notes.txt'' [CHR ''a'', CHR 0x0A, CHR ''b'', CHR 0x0A, CHR ''c'', CHR 0x0A, CHR ''d'']]"
proof -
  have a: "json_string_at append_demo_args ''path'' = Some ''notes.txt''"
    "select_operation append_demo_args = APPEND ''d''"
    by (simp_all add: append_demo_args_def json_string_at_def select_operation_def)
  show ?thesis
    unfolding file_edit_execute_def a option.case file_edit_apply_def
    by (simp add: auto_config_sel notes_path_ok edit_demo_world_facts trace_write_file
        edit_demo_world_trace)
qed

text \<open>
  Four executions under auto-confirm: \<^verbatim>\<open>ls\<close> by the shell and the bash tool, a file
  write and an append; each performs its operation and asks nothing.
\<close>

theorem auto_confirm_never_asks_witness:
  "(\<exists>r w'. shell_execute auto_config ls_demo_args (shell_demo_world []) = (r, w') \<and>
      new_events (shell_demo_world []) w' = [Popen ''ls 2>&1''] \<and>
      filter is_gate (new_events (shell_demo_world []) w') = []) \<and>
   (\<exists>r w'. bash_execute auto_config ls_demo_args (shell_demo_world []) = (r, w') \<and>
      new_events (shell_demo_world []) w'
        = [Popen (''cd '' @ [CHR 0x22] @ ''/tmp'' @ [CHR 0x22] @ '' && ls 2>&1'')] \<and>
      filter is_gate (new_events (shell_demo_world []) w') = []) \<and>
   (\<exists>r w'. file_write_execute auto_config write_demo_args (edit_demo_world []) = (r, w') \<and>
      new_events (edit_demo_world []) w' = [FileWrite ''notes.txt'' ''hi''] \<and>
      filter is_gate (new_events (edit_demo_world []) w') = []) \<and>
   (\<exists>r w'. file_edit_execute auto_config append_demo_args (edit_demo_world []) = Some (r, w') \<and>
      new_events (edit_demo_world []) w'
        = [FileWrite ''notes.txt'' [CHR ''a'', CHR 0x0A, CHR ''b'', CHR 0x0A, CHR ''c'', CHR 0x0A, CHR ''d'']] \<and>
      filter is_gate (new_events (edit_demo_world []) w') = [])"
proof (intro conjI)
  let ?w = "shell_demo_world []"
  let ?x = "shell_execute auto_config ls_demo_args ?w"
  from auto_confirm_never_asks [of auto_config ls_demo_args "''ls''" ?w "fst ?x" "snd ?x"]
    auto_config_sel(3) ls_demo_args_facts(1) ls_demo_no_hit(1)
  have "filter is_gate (new_events ?w (snd ?x)) = []" by simp
  moreover have "new_events ?w (snd ?x) = [Popen ''ls 2>&1'']"
    by (simp add: new_events_def shell_demo_world_sel ls_demo_shell_run)
  ultimately show "\<exists>r w'. ?x = (r, w') \<and> new_events ?w w' = [Popen ''ls 2>&1''] \<and>
      filter is_gate (new_events ?w w') = []"
    by (intro exI [of _ "fst ?x"] exI [of _ "snd ?x"]) simp
next
  let ?w = "shell_demo_world []"
  let ?x = "bash_execute auto_config ls_demo_args ?w"
  let ?c = "''cd '' @ [CHR 0x22] @ ''/tmp'' @ [CHR 0x22] @ '' && ls 2>&1''"
  from auto_confirm_never_asks [of auto_config ls_demo_args "''ls''" ?w "fst ?x" "snd ?x"]
    auto_config_sel(3) ls_demo_args_facts(1) ls_demo_no_hit(2)
  have "filter is_gate (new_events ?w (snd ?x)) = []" by simp
  moreover have "new_events ?w (snd ?x) = [Popen ?c]"
    using ls_demo_bash_run by (simp add: new_events_def shell_demo_world_sel)
  ultimately show "\<exists>r w'. ?x = (r, w') \<and> new_events ?w w' = [Popen ?c] \<and>
      filter is_gate (new_events ?w w') = []"
    by (intro exI [of _ "fst ?x"] exI [of _ "snd ?x"]) simp
next
  let ?w = "edit_demo_world []"
  let ?x = "file_write_execute auto_config write_demo_args ?w"
  from auto_confirm_never_asks [of auto_config write_demo_args _ ?w "fst ?x" "snd ?x"]
    auto_config_sel(4)
  have "filter is_gate (new_events ?w (snd ?x)) = []" by simp
  moreover have "new_events ?w (snd ?x) = [FileWrite ''notes.txt'' ''hi'']"
    by (simp add: new_events_def edit_demo_world_trace write_demo_run)
  ultimately show "\<exists>r w'. ?x = (r, w') \<and> new_events ?w w' = [FileWrite ''notes.txt'' ''hi''] \<and>
      filter is_gate (new_events ?w w') = []"
    by (intro exI [of _ "fst ?x"] exI [of _ "snd ?x"]) simp
next
  let ?w = "edit_demo_world []"
  let ?F = "[FileWrite ''notes.txt'' [CHR ''a'', CHR 0x0A, CHR ''b'', CHR 0x0A, CHR ''c'', CHR 0x0A, CHR ''d'']]"
  from append_demo_run obtain r w' where
    run: "file_edit_execute auto_config append_demo_args ?w = Some (r, w')" and
    tr: "trace w' = ?F"
    by blast
  from auto_confirm_never_asks [of auto_config append_demo_args _ ?w r w'] auto_config_sel(4) run
  have "filter is_gate (new_events ?w w') = []" by simp
  moreover have "new_events ?w w' = ?F"
    using tr by (simp add: new_events_def edit_demo_world_trace)
  ultimately show "\<exists>r w'. file_edit_execute auto_config append_demo_args ?w = Some (r, w') \<and>
      new_events ?w w' = ?F \<and> filter is_gate (new_events ?w w') = []"
    using run by blast
qed

section \<open>The tool round\<close>

lemma length_sequential_results:
  "length (fst (sequential_results tools calls w)) = length calls"
proof (induction calls arbitrary: w)
  case Nil
  then show ?case by simp
next
  case (Cons tc rest)
  obtain r w1 where ex: "execute_tool tools (tc_name tc) (tc_arguments tc) w = (r, w1)"
    by (cases "execute_tool tools (tc_name tc) (tc_arguments tc) w") blast
  obtain rs w2 where sq: "sequential_results tools rest w1 = (rs, w2)"
    by (cases "sequential_results tools rest w1") blast
  from Cons [of w1] sq have "length rs = length rest" by simp
  with ex sq show ?case by simp
qed

lemma make_tool_response_eq: "make_tool_response (result_text r) (tc_name tc) = tool_message tc r"
  by (simp add: make_tool_response_def tool_message_def)

lemma process_tool_calls_eq:
  "process_tool_calls tools calls conversation w =
     (conversation @ map2 tool_message
        (filter (\<lambda>tc. has_tool tools (tc_name tc)) calls)
        (fst (sequential_results tools (filter (\<lambda>tc. has_tool tools (tc_name tc)) calls) w)),
      snd (sequential_results tools (filter (\<lambda>tc. has_tool tools (tc_name tc)) calls) w))"
proof (induction calls arbitrary: conversation w)
  case Nil
  then show ?case by simp
next
  case (Cons tc rest)
  show ?case
  proof (cases "has_tool tools (tc_name tc)")
    case False
    then show ?thesis using Cons by simp
  next
    case True
    obtain r w1 where ex: "execute_tool tools (tc_name tc) (tc_arguments tc) w = (r, w1)"
      by (cases "execute_tool tools (tc_name tc) (tc_arguments tc) w") blast
    with True Cons [of "conversation @ [tool_message tc r]" w1] show ?thesis
      by (simp add: make_tool_response_eq split: prod.splits)
  qed
qed

text \<open>
  Claim C4, amended. The loop over the tool calls of a response takes them in request
  order; the calls whose name is registered are executed through the registry one after
  the other, and for each of them exactly one message is appended to the conversation,
  with role \<^verbatim>\<open>tool\<close>, the name of the tool, and the content of the result or the error
  message. A call whose name is not registered is skipped: nothing is executed and
  nothing is appended for it.
\<close>

theorem tool_round_appends_registered:
  "process_tool_calls tools calls conversation w =
     (conversation @ map2 tool_message
        (filter (\<lambda>tc. has_tool tools (tc_name tc)) calls)
        (fst (sequential_results tools (filter (\<lambda>tc. has_tool tools (tc_name tc)) calls) w)),
      snd (sequential_results tools (filter (\<lambda>tc. has_tool tools (tc_name tc)) calls) w)) \<and>
   length (fst (sequential_results tools (filter (\<lambda>tc. has_tool tools (tc_name tc)) calls) w))
     = length (filter (\<lambda>tc. has_tool tools (tc_name tc)) calls)"
  by (simp add: process_tool_calls_eq length_sequential_results)

lemma demo_tools_facts:
  "\<not> has_tool demo_tools ''shell_tool''" "has_tool demo_tools ''calculator''"
  "execute_tool demo_tools ''calculator'' args w = calculator_execute example_config args w"
  by (simp_all add: demo_tools_def has_tool_def execute_tool_def)

text \<open>
  Claim C4 as stated has one message appended for each requested call. With only the
  calculator registered, a response that requests \<^verbatim>\<open>shell_tool\<close> and then the calculator
  leaves one message for two calls.
\<close>

theorem unregistered_call_skipped_counterexample:
  "length demo_calls = 2 \<and>
   fst (process_tool_calls demo_tools demo_calls [] calc_demo_world)
     = [\<lparr>role = ''tool'', content = ''4'', name = ''calculator'', tool_calls = []\<rparr>] \<and>
   length (fst (process_tool_calls demo_tools demo_calls [] calc_demo_world)) \<noteq> length demo_calls"
  by (simp add: demo_calls_def demo_tools_facts calc_demo_run make_tool_response_def)

theorem tool_round_appends_registered_witness:
  "filter (\<lambda>tc. has_tool demo_tools (tc_name tc)) demo_calls
     = [\<lparr>tc_id = ''2'', tc_name = ''calculator'', tc_arguments = calc_demo_args\<rparr>] \<and>
   fst (sequential_results demo_tools
          [\<lparr>tc_id = ''2'', tc_name = ''calculator'', tc_arguments = calc_demo_args\<rparr>]
          calc_demo_world) = [Success ''4''] \<and>
   fst (process_tool_calls demo_tools demo_calls [] calc_demo_world)
     = [\<lparr>role = ''tool'', content = ''4'', name = ''calculator'', tool_calls = []\<rparr>]"
proof -
  have f: "filter (\<lambda>tc. has_tool demo_tools (tc_name tc)) demo_calls
     = [\<lparr>tc_id = ''2'', tc_name = ''calculator'', tc_arguments = calc_demo_args\<rparr>]"
    by (simp add: demo_calls_def demo_tools_facts)
  have s: "fst (sequential_results demo_tools
          [\<lparr>tc_id = ''2'', tc_name = ''calculator'', tc_arguments = calc_demo_args\<rparr>]
          calc_demo_world) = [Success ''4'']"
    by (simp add: demo_tools_facts calc_demo_run)
  from tool_round_appends_registered [of demo_tools demo_calls "[]" calc_demo_world]
  have "fst (process_tool_calls demo_tools demo_calls [] calc_demo_world)
     = [\<lparr>role = ''tool'', content = ''4'', name = ''calculator'', tool_calls = []\<rparr>]"
    by (simp add: f tool_message_def demo_tools_facts calc_demo_run)
  with f s show ?thesis by simp
qed

section \<open>Tool calls and transport failures of the client\<close>

lemma parse_tool_call_list_nth:
  assumes "parse_tool_call_list parse entries = Inr calls"
  shows "length calls = length entries \<and>
         (\<forall>i < length entries. parse_tool_call parse (entries ! i) = Inr (calls ! i))"
  using assms
proof (induction entries arbitrary: calls)
  case Nil
  then show ?case by simp
next
  case (Cons e es)
  from Cons.prems obtain c cs where
    c: "parse_tool_call parse e = Inr c" and cs: "parse_tool_call_list parse es = Inr cs"
    and calls: "calls = c # cs"
    by (auto split: sum.splits)
  from Cons.IH [OF cs] have l: "length cs = length es"
    and n: "\<forall>i < length es. parse_tool_call parse (es ! i) = Inr (cs ! i)"
    by simp_all
  have "parse_tool_call parse ((e # es) ! i) = Inr (calls ! i)" if "i < length (e # es)" for i
    using that c n calls by (cases i) auto
  with l calls show ?case by simp
qed

lemma parse_tool_call_arguments:
  assumes "parse_tool_call parse e = Inr tc" and "json_at e ''function'' = Some f"
  shows "parse_arguments parse (json_at f ''arguments'') = Inr (tc_arguments tc)"
  using assms unfolding parse_tool_call_def
  by (auto split: sum.splits option.splits)

text \<open>
  When \<^verbatim>\<open>parse_tool_calls\<close> returns, it returns one tool call for each entry of
  \<^verbatim>\<open>tool_calls\<close>, in order, and for an entry whose function has an \<^verbatim>\<open>arguments\<close> member:
  a string that parses gives the parsed value, a string on which the parser throws
  \<^verbatim>\<open>json::parse_error\<close> gives the string itself, and a value that is not a string is
  taken as it is.
\<close>

lemma parse_tool_calls_arguments:
  assumes run: "parse_tool_calls parse message = Inr calls"
    and entries: "json_at message ''tool_calls'' = Some (JArray entries)"
    and i: "i < length entries"
    and f: "json_at (entries ! i) ''function'' = Some f"
    and a: "json_at f ''arguments'' = Some a"
  shows "length calls = length entries \<and>
         (\<forall>s v. a = JString s \<and> parse s = Parsed v \<longrightarrow> tc_arguments (calls ! i) = v) \<and>
         (\<forall>s. a = JString s \<and> parse s = ParseError \<longrightarrow> tc_arguments (calls ! i) = JString s) \<and>
         ((\<forall>s. a \<noteq> JString s) \<longrightarrow> tc_arguments (calls ! i) = a)"
proof -
  from run entries have "parse_tool_call_list parse entries = Inr calls"
    by (simp add: parse_tool_calls_def)
  from parse_tool_call_list_nth [OF this] i have
    l: "length calls = length entries" and
    c: "parse_tool_call parse (entries ! i) = Inr (calls ! i)"
    by simp_all
  from parse_tool_call_arguments [OF c f] a
  have "parse_arguments parse (Some a) = Inr (tc_arguments (calls ! i))" by simp
  with l show ?thesis by (cases a) (auto split: parse_outcome.splits)
qed

lemma tool_demo_run:
  "parse_tool_calls tool_demo_parse tool_demo_message =
     Inr [\<lparr>tc_id = ''a'', tc_name = ''calculator'', tc_arguments = JArray [JInt 7]\<rparr>,
          \<lparr>tc_id = [], tc_name = ''calculator'', tc_arguments = JString ''2+2''\<rparr>,
          \<lparr>tc_id = [], tc_name = ''calculator'',
            tc_arguments = JObject [(''expression'', JString ''2+2'')]\<rparr>]"
  by (simp add: parse_tool_calls_def tool_demo_message_def tool_demo_entries_def
      parse_tool_call_def tool_demo_parse_def)

text \<open>
  Claim C3, at an input where the code breaks it. The entry's \<^verbatim>\<open>arguments\<close> is the
  string \<^verbatim>\<open>1e999\<close>. On that text \<^verbatim>\<open>json::parse\<close> throws \<^verbatim>\<open>json::out_of_range\<close>, which the
  handler for \<^verbatim>\<open>json::parse_error\<close> does not catch: the string is not kept as the
  arguments, no tool call is made of the entry, and the exception leaves
  \<^verbatim>\<open>parse_tool_calls\<close>.
\<close>

theorem tool_call_arguments_out_of_range:
  "json_at overflow_demo_message ''tool_calls'' = Some (JArray [overflow_demo_entry]) \<and>
   json_at overflow_demo_entry ''function''
     = Some (JObject [(''name'', JString ''calculator''), (''arguments'', JString ''1e999'')]) \<and>
   tool_demo_parse ''1e999'' = OutOfRange \<and>
   parse_tool_call tool_demo_parse overflow_demo_entry = Inl out_of_range \<and>
   parse_tool_calls tool_demo_parse overflow_demo_message = Inl out_of_range"
proof -
  have p: "tool_demo_parse ''1e999'' = OutOfRange" by (simp add: tool_demo_parse_def)
  have e: "parse_tool_call tool_demo_parse overflow_demo_entry = Inl out_of_range"
    by (simp add: parse_tool_call_def overflow_demo_entry_def p)
  have m: "parse_tool_calls tool_demo_parse overflow_demo_message = Inl out_of_range"
    by (simp add: parse_tool_calls_def overflow_demo_message_def e)
  from p e m show ?thesis
    by (simp add: overflow_demo_message_def overflow_demo_entry_def)
qed

text \<open>
  The non-streaming request returns the assistant message with empty content and no
  tool calls, and throws nothing, when \<^verbatim>\<open>curl_easy_init\<close> fails, and, once the payload
  is serialised and the transfer made, when the transfer fails, when the parser throws
  \<^verbatim>\<open>json::parse_error\<close> on the body, and when the body parses to a value without a
  \<^verbatim>\<open>message\<close> member.
\<close>

lemma chat_failure_gives_empty_message:
  "(\<not> curl_easy_init_ok nw
    \<longrightarrow> chat nw parse host model messages tools False
          = Inr \<lparr>role = ''assistant'', content = [], name = [], tool_calls = []\<rparr>) \<and>
   (curl_easy_init_ok nw \<and>
    json_dump nw (chat_payload model messages False tools) = Some payload_str \<and>
    curl_easy_perform nw (host @ ''/api/chat'') payload_str = (res, chunks) \<and>
    (res \<noteq> 0 \<or> parse (concat chunks) = ParseError \<or>
     (\<exists>j. parse (concat chunks) = Parsed j \<and> json_at j ''message'' = None))
    \<longrightarrow> chat nw parse host model messages tools False
          = Inr \<lparr>role = ''assistant'', content = [], name = [], tool_calls = []\<rparr>)"
  by (auto simp: chat_def chat_message_def)

lemma demo_net_sel:
  "curl_easy_init_ok (demo_net ok res chunks) = ok"
  "json_dump (demo_net ok res chunks) j = Some ''{}''"
  "curl_easy_perform (demo_net ok res chunks) url body = (res, chunks)"
  by (simp_all add: demo_net_def)

lemma chat_failure_demo:
  "chat (demo_net False 0 []) tool_demo_parse ''http://localhost:11434'' ''m'' [] [] False
     = Inr \<lparr>role = ''assistant'', content = [], name = [], tool_calls = []\<rparr> \<and>
   chat (demo_net True 7 []) tool_demo_parse ''http://localhost:11434'' ''m'' [] [] False
     = Inr \<lparr>role = ''assistant'', content = [], name = [], tool_calls = []\<rparr> \<and>
   tool_demo_parse (concat [''2+'', ''2'']) = ParseError \<and>
   chat (demo_net True 0 [''2+'', ''2'']) tool_demo_parse ''http://localhost:11434'' ''m'' [] [] False
     = Inr \<lparr>role = ''assistant'', content = [], name = [], tool_calls = []\<rparr> \<and>
   tool_demo_parse (concat [''{}'']) = Parsed (JObject []) \<and> json_at (JObject []) ''message'' = None \<and>
   chat (demo_net True 0 [''{}'']) tool_demo_parse ''http://localhost:11434'' ''m'' [] [] False
     = Inr \<lparr>role = ''assistant'', content = [], name = [], tool_calls = []\<rparr>"
  by (simp add: chat_def chat_message_def demo_net_sel tool_demo_parse_def)

text \<open>
  Claim C5, at an input where the code breaks it. The transfer succeeds and the body
  of the response is \<^verbatim>\<open>1e999\<close>, which is not a JSON object with a \<^verbatim>\<open>message\<close> member. On
  that text \<^verbatim>\<open>json::parse\<close> throws \<^verbatim>\<open>json::out_of_range\<close>, which the handler for
  \<^verbatim>\<open>json::parse_error\<close> does not catch: no message is returned and the exception leaves
  \<^verbatim>\<open>chat\<close>.
\<close>

theorem chat_out_of_range_escapes:
  "curl_easy_init_ok (demo_net True 0 [''1e999'']) \<and>
   curl_easy_perform (demo_net True 0 [''1e999'']) (''http://localhost:11434'' @ ''/api/chat'') ''{}''
     = (0, [''1e999'']) \<and>
   tool_demo_parse (concat [''1e999'']) = OutOfRange \<and>
   chat (demo_net True 0 [''1e999'']) tool_demo_parse ''http://localhost:11434'' ''m'' [] [] False
     = Inl out_of_range"
  by (simp add: chat_def demo_net_sel tool_demo_parse_def)

section \<open>The stream reassembler\<close>

lemma process_lines_no_newline:
  "CHR 0x0A \<notin> set buf \<Longrightarrow> process_lines parse buf = ([], Inr buf)"
  by (subst process_lines.simps) simp

lemma process_lines_newline:
  assumes "CHR 0x0A \<in> set buf"
  shows "process_lines parse buf =
           (case line_fragments parse (takeWhile (\<lambda>c. c \<noteq> CHR 0x0A) buf) of
              Inl e \<Rightarrow> ([], Inl e)
            | Inr fs \<Rightarrow>
                (case process_lines parse (tl (dropWhile (\<lambda>c. c \<noteq> CHR 0x0A) buf)) of
                   (later, rest) \<Rightarrow> (fs @ later, rest)))"
  using assms by (subst process_lines.simps) simp

text \<open>The buffer a call leaves holds no newline.\<close>

lemma process_lines_rest_no_newline:
  "process_lines parse buf = (fs, Inr rest) \<Longrightarrow> CHR 0x0A \<notin> set rest"
proof (induction parse buf arbitrary: fs rule: process_lines.induct)
  case (1 parse buf)
  show ?case
  proof (cases "CHR 0x0A \<in> set buf")
    case False
    with "1.prems" show ?thesis by (simp add: process_lines_no_newline)
  next
    case True
    with "1.prems" obtain f later where
      lf: "line_fragments parse (takeWhile (\<lambda>c. c \<noteq> CHR 0x0A) buf) = Inr f" and
      pl: "process_lines parse (tl (dropWhile (\<lambda>c. c \<noteq> CHR 0x0A) buf)) = (later, Inr rest)"
      by (auto simp: process_lines_newline split: sum.splits prod.splits)
    from "1.IH" [OF _ lf pl] True show ?thesis by simp
  qed
qed

text \<open>
  Processing a buffer followed by more bytes is processing the buffer, then what it
  leaves followed by those bytes; an exception in the buffer is the same exception.
\<close>

lemma process_lines_append:
  "process_lines parse (a @ b) =
     (case process_lines parse a of
        (fs, Inl e) \<Rightarrow> (fs, Inl e)
      | (fs, Inr rest) \<Rightarrow>
          (case process_lines parse (rest @ b) of (later, r) \<Rightarrow> (fs @ later, r)))"
proof (induction parse a rule: process_lines.induct)
  case (1 parse a)
  show ?case
  proof (cases "CHR 0x0A \<in> set a")
    case False
    then show ?thesis by (simp add: process_lines_no_newline split: prod.splits)
  next
    case True
    then have tw: "takeWhile (\<lambda>c. c \<noteq> CHR 0x0A) (a @ b) = takeWhile (\<lambda>c. c \<noteq> CHR 0x0A) a"
      by (simp add: takeWhile_append1)
    from True have dw: "dropWhile (\<lambda>c. c \<noteq> CHR 0x0A) (a @ b)
                          = dropWhile (\<lambda>c. c \<noteq> CHR 0x0A) a @ b"
      by (simp add: dropWhile_append1)
    from True have ne: "dropWhile (\<lambda>c. c \<noteq> CHR 0x0A) a \<noteq> []"
      by (simp add: dropWhile_eq_Nil_conv)
    then have tl: "tl (dropWhile (\<lambda>c. c \<noteq> CHR 0x0A) (a @ b))
                     = tl (dropWhile (\<lambda>c. c \<noteq> CHR 0x0A) a) @ b"
      by (simp add: dw)
    from True have ab: "CHR 0x0A \<in> set (a @ b)" by simp
    show ?thesis
    proof (cases "line_fragments parse (takeWhile (\<lambda>c. c \<noteq> CHR 0x0A) a)")
      case (Inl e)
      with True ab show ?thesis
        by (simp add: process_lines_newline [OF True] process_lines_newline [OF ab] tw)
    next
      case (Inr f)
      from "1.IH" [OF _ Inr] True
      have "process_lines parse (tl (dropWhile (\<lambda>c. c \<noteq> CHR 0x0A) a) @ b) =
         (case process_lines parse (tl (dropWhile (\<lambda>c. c \<noteq> CHR 0x0A) a)) of
            (fs, Inl e) \<Rightarrow> (fs, Inl e)
          | (fs, Inr rest) \<Rightarrow>
              (case process_lines parse (rest @ b) of (later, r) \<Rightarrow> (fs @ later, r)))"
        by simp
      with Inr show ?thesis
        by (simp add: process_lines_newline [OF True] process_lines_newline [OF ab] tw tl
            split: prod.splits sum.splits)
    qed
  qed
qed

text \<open>
  However the bytes of a response are cut into chunks, the callbacks hand out the
  fragments, leave the buffer and end in the exception that one pass over the whole
  response does.
\<close>

lemma feed_chunks_whole:
  "CHR 0x0A \<notin> set buf \<Longrightarrow>
   feed_chunks parse buf chunks = process_lines parse (buf @ concat chunks)"
proof (induction chunks arbitrary: buf)
  case Nil
  then show ?case by (simp add: process_lines_no_newline)
next
  case (Cons chunk chunks)
  obtain fs r where pl: "process_lines parse (buf @ chunk) = (fs, r)"
    by (cases "process_lines parse (buf @ chunk)") blast
  show ?case
  proof (cases r)
    case (Inl e)
    with pl process_lines_append [of parse "buf @ chunk" "concat chunks"] show ?thesis
      by (simp add: stream_callback_def)
  next
    case (Inr rest)
    with pl have "CHR 0x0A \<notin> set rest" by (auto dest: process_lines_rest_no_newline)
    from Cons.IH [OF this] Inr pl process_lines_append [of parse "buf @ chunk" "concat chunks"]
    show ?thesis by (simp add: stream_callback_def)
  qed
qed

lemma feed_chunks_chunking_independent:
  "concat chunks = concat chunks' \<Longrightarrow> feed_chunks parse [] chunks = feed_chunks parse [] chunks'"
  by (simp add: feed_chunks_whole)

lemma process_lines_one_line:
  assumes "CHR 0x0A \<notin> set l"
  shows "process_lines parse (l @ CHR 0x0A # more_bytes) =
           (case line_fragments parse l of
              Inl e \<Rightarrow> ([], Inl e)
            | Inr fs \<Rightarrow>
                (case process_lines parse more_bytes of (later, rest) \<Rightarrow> (fs @ later, rest)))"
proof -
  have mem: "CHR 0x0A \<in> set (l @ CHR 0x0A # more_bytes)" by simp
  from assms have all: "\<forall>c \<in> set l. c \<noteq> CHR 0x0A" by auto
  then have tw: "takeWhile (\<lambda>c. c \<noteq> CHR 0x0A) (l @ CHR 0x0A # more_bytes) = l"
    and dw: "dropWhile (\<lambda>c. c \<noteq> CHR 0x0A) (l @ CHR 0x0A # more_bytes) = CHR 0x0A # more_bytes"
    by simp_all
  show ?thesis unfolding process_lines_newline [OF mem] tw dw list.sel ..
qed

lemma line_fragments_well_typed:
  assumes "content_is_string parse l" "parse [] = ParseError"
  shows "line_fragments parse l = Inr (record_content parse l)"
proof (cases "parse l")
  case (Parsed j)
  with assms show ?thesis
    by (cases "l = []")
       (auto simp: line_fragments_def record_content_def content_is_string_def
          split: option.splits json.splits)
next
  case ParseError
  then show ?thesis by (simp add: line_fragments_def record_content_def)
next
  case OutOfRange
  with assms show ?thesis by (simp add: content_is_string_def)
qed

text \<open>
  A response made of complete lines and an unfinished one, every line well typed: the
  fragments handed out are the content fields of the lines, in order, each once, and
  the unfinished line stays in the buffer.
\<close>

lemma process_lines_stream_bytes:
  assumes "\<forall>l \<in> set ls. CHR 0x0A \<notin> set l \<and> content_is_string parse l"
    and "CHR 0x0A \<notin> set partial" and "parse [] = ParseError"
  shows "process_lines parse (stream_bytes ls partial)
           = (concat (map (record_content parse) ls), Inr partial)"
  using assms(1)
proof (induction ls)
  case Nil
  with assms(2) show ?case by (simp add: stream_bytes_def process_lines_no_newline)
next
  case (Cons l ls)
  then have l: "CHR 0x0A \<notin> set l" "content_is_string parse l"
    and ih: "process_lines parse (stream_bytes ls partial)
               = (concat (map (record_content parse) ls), Inr partial)"
    by simp_all
  have "stream_bytes (l # ls) partial = l @ CHR 0x0A # stream_bytes ls partial"
    by (simp add: stream_bytes_def)
  with process_lines_one_line [OF l(1), of parse "stream_bytes ls partial"]
    line_fragments_well_typed [OF l(2) assms(3)] ih
  show ?case by simp
qed

lemma feed_chunks_stream_bytes:
  assumes "concat chunks = stream_bytes ls partial"
    and "\<forall>l \<in> set ls. CHR 0x0A \<notin> set l \<and> content_is_string parse l"
    and "CHR 0x0A \<notin> set partial" and "parse [] = ParseError"
  shows "feed_chunks parse [] chunks = (concat (map (record_content parse) ls), Inr partial)"
  using feed_chunks_whole [of "[]" parse chunks] assms(1)
    process_lines_stream_bytes [OF assms(2,3,4)]
  by simp

lemma stream_demo_parse_facts:
  "stream_demo_parse null_line = Parsed (JObject [(''message'', JObject [(''content'', JNull)])])"
  "stream_demo_parse text_line = Parsed (JObject [(''message'', JObject [(''content'', JString ''x'')])])"
  by (simp_all add: stream_demo_parse_def null_line_def text_line_def)

lemma demo_lines_no_newline:
  "CHR 0x0A \<notin> set null_line" "CHR 0x0A \<notin> set text_line"
  "null_line \<noteq> []" "text_line \<noteq> []"
  by (simp_all add: null_line_def text_line_def)

lemma line_fragments_demo:
  "line_fragments stream_demo_parse null_line = Inl type_error"
  "line_fragments stream_demo_parse text_line = Inr [''x'']"
  by (simp_all add: line_fragments_def stream_demo_parse_facts demo_lines_no_newline)

text \<open>
  Claim C2, at an input where the code breaks it. The line \<^verbatim>\<open>{"message":{"content":"x"}}\<close>
  alone is emitted as \<^verbatim>\<open>x\<close>. After the line \<^verbatim>\<open>{"message":{"content":null}}\<close>, which is
  JSON but whose content is no string, \<^verbatim>\<open>get<std::string>()\<close> throws a
  \<^verbatim>\<open>json::type_error\<close> that the handler for \<^verbatim>\<open>json::parse_error\<close> does not catch: the
  transfer ends, nothing is emitted, and the exception leaves \<^verbatim>\<open>chat_stream\<close>.
\<close>

theorem stream_aborts_on_non_string_content:
  "stream_demo_parse text_line = Parsed (JObject [(''message'', JObject [(''content'', JString ''x'')])]) \<and>
   feed_chunks stream_demo_parse [] [text_line @ [CHR 0x0A]] = ([''x''], Inr []) \<and>
   stream_demo_parse null_line = Parsed (JObject [(''message'', JObject [(''content'', JNull)])]) \<and>
   feed_chunks stream_demo_parse [] [null_line @ [CHR 0x0A], text_line @ [CHR 0x0A]] = ([], Inl type_error) \<and>
   chat_stream (demo_net True 0 [null_line @ [CHR 0x0A], text_line @ [CHR 0x0A]])
     stream_demo_parse ''http://localhost:11434'' ''m'' [] [] = ([], Some type_error)"
proof -
  have a: "feed_chunks stream_demo_parse [] [text_line @ [CHR 0x0A]] = ([''x''], Inr [])"
    using process_lines_one_line [OF demo_lines_no_newline(2), of stream_demo_parse "[]"]
    by (simp add: stream_callback_def line_fragments_demo process_lines_no_newline)
  have b: "feed_chunks stream_demo_parse [] [null_line @ [CHR 0x0A], text_line @ [CHR 0x0A]]
             = ([], Inl type_error)"
    using process_lines_one_line [OF demo_lines_no_newline(1), of stream_demo_parse "[]"]
    by (simp add: stream_callback_def line_fragments_demo)
  from a b stream_demo_parse_facts show ?thesis
    by (simp add: chat_stream_def demo_net_sel)
qed

section \<open>The command line of the bash tool\<close>

lemma sublist_across_char:
  assumes "c \<notin> set b"
  shows "sublist b (xs @ c # ys) \<longleftrightarrow> sublist b xs \<or> sublist b ys"
proof
  assume "sublist b (xs @ c # ys)"
  then consider "sublist b xs" | "sublist b (c # ys)"
    | b1 b2 where "b = b1 @ b2" "suffix b1 xs" "prefix b2 (c # ys)"
    by (auto simp: sublist_append)
  then show "sublist b xs \<or> sublist b ys"
  proof cases
    case 1
    then show ?thesis by simp
  next
    case 2
    then have "prefix b (c # ys) \<or> sublist b ys" by (simp add: sublist_Cons_right)
    moreover have "b = []" if "prefix b (c # ys)"
      using that assms by (cases b) auto
    ultimately show ?thesis by auto
  next
    case 3
    from 3(3) assms 3(1) have "b2 = []" by (cases b2) auto
    with 3 show ?thesis by (auto simp: suffix_imp_sublist)
  qed
next
  assume "sublist b xs \<or> sublist b ys"
  then show "sublist b (xs @ c # ys)"
    by (auto simp: sublist_append sublist_Cons_right)
qed

lemma sublist_skip_char:
  assumes "b \<noteq> []" "hd b \<noteq> c"
  shows "sublist b (c # ys) \<longleftrightarrow> sublist b ys"
proof -
  have "\<not> prefix b (c # ys)" using assms by (cases b) auto
  then show ?thesis by (simp add: sublist_Cons_right)
qed

lemma bash_blocked_no_quote: "\<forall>b \<in> set bash_blocked_commands. dq \<notin> set b"
  by (simp add: bash_blocked_commands_def dq_def)

lemma bash_blocked_heads:
  "\<forall>b \<in> set bash_blocked_commands. b \<noteq> [] \<and> hd b \<noteq> CHR '' '' \<and> hd b \<noteq> CHR ''&''"
  by (simp add: bash_blocked_commands_def)

lemma bash_blocked_not_in_cd: "\<forall>b \<in> set bash_blocked_commands. str_find ''cd '' b = None"
  by (simp add: bash_blocked_commands_def)

text \<open>
  The prefix the bash tool puts before the command brings no blocked pattern of its
  own: the command line contains one exactly when the command or the working directory
  does.
\<close>

lemma bash_command_line_hit_iff:
  assumes "b \<in> set bash_blocked_commands"
  shows "sublist b (bash_command_line args command) \<longleftrightarrow>
           sublist b command \<or>
           (\<exists>wd. json_string_at args ''working_directory'' = Some wd \<and> sublist b wd)"
proof (cases "json_string_at args ''working_directory''")
  case None
  then show ?thesis by (simp add: bash_command_line_def)
next
  case (Some wd)
  from assms bash_blocked_no_quote have q: "dq \<notin> set b" by blast
  from assms bash_blocked_heads have
    ne: "b \<noteq> []" and h: "hd b \<noteq> CHR '' ''" "hd b \<noteq> CHR ''&''"
    by blast+
  from assms bash_blocked_not_in_cd have "str_find ''cd '' b = None" by blast
  with str_find_None_iff [of "''cd ''" b] have cd: "\<not> sublist b ''cd ''" by blast
  have "bash_command_line args command = ''cd '' @ dq # (wd @ dq # ('' && '' @ command))"
    using Some by (simp add: bash_command_line_def)
  then have "sublist b (bash_command_line args command) \<longleftrightarrow>
               sublist b ''cd '' \<or> sublist b wd \<or> sublist b ('' && '' @ command)"
    by (simp only: sublist_across_char [OF q])
  also have "sublist b ('' && '' @ command) \<longleftrightarrow> sublist b command"
    using ne h by (simp add: sublist_skip_char)
  finally show ?thesis using cd Some by auto
qed

end
